theory Spec2Isabelle
  imports Complex_Main
begin

section \<open>The Lighthouse audit tool of playwright-mcp (src/tools/lighthouse.ts)\<close>

text \<open>
  The file under verification declares one zod schema, \<open>lighthouseAuditSchema\<close>, and one
  asynchronous handler, \<open>handle\<close>. The handler is straight-line code with five effects:
  \<open>context.ensureTab()\<close>, \<open>fs.mkdir\<close>, \<open>Date.now()\<close>, \<open>playAudit\<close> and
  \<open>console.log\<close>. The embedding below makes each of them explicit: what the outside
  world answers is a field of an environment record, what the handler does to the outside
  world is an event of a trace, and every \<open>throw\<close> (or rejected promise) is the left
  summand of the handler's result.

  Conventions.
  \<^item> A JavaScript string is an Isabelle \<open>string\<close>; only the ASCII range is modelled.
  \<^item> A JavaScript object is an association list in property order, read with \<open>map_of\<close>.
  \<^item> The raw tool parameters are a JSON value (they arrive over JSON-RPC), so a number is
    finite; it is a \<open>real\<close> here. \<open>undefined\<close> is the absence of a key.
\<close>

subsection \<open>Strings\<close>

text \<open>\<open>String.prototype.startsWith\<close>.\<close>

definition startsWith :: "string \<Rightarrow> string \<Rightarrow> bool" where
  "startsWith s p = (take (length p) s = p)"

text \<open>
  \<open>String.prototype.split\<close> with a one-character separator: the pieces between the
  occurrences of the separator, empty pieces kept; the result is never empty.
\<close>

fun split :: "char \<Rightarrow> string \<Rightarrow> string list" where
  "split sep [] = [[]]"
| "split sep (c # cs) =
     (if c = sep then [] # split sep cs
      else (case split sep cs of
              [] \<Rightarrow> [[c]]
            | piece # pieces \<Rightarrow> (c # piece) # pieces))"

text \<open>Indexing an array: out of range is \<open>undefined\<close>, here \<open>None\<close>.\<close>

definition at_index :: "'a list \<Rightarrow> nat \<Rightarrow> 'a option" where
  "at_index xs i = (if i < length xs then Some (xs ! i) else None)"

text \<open>\<open>Array.prototype.find\<close>: the first element satisfying the predicate.\<close>

fun find_first :: "('a \<Rightarrow> bool) \<Rightarrow> 'a list \<Rightarrow> 'a option" where
  "find_first P [] = None"
| "find_first P (x # xs) = (if P x then Some x else find_first P xs)"

text \<open>
  \<open>Number.prototype.toString\<close> on an integral number, as a template literal applies it.
  The decimal digits, with a leading minus sign below zero. (JavaScript switches to
  exponent notation from \<open>10^21\<close> on; a time value is below \<open>8.64 * 10^15\<close> in
  magnitude.)
\<close>

definition digit_char :: "nat \<Rightarrow> char" where
  "digit_char d = ''0123456789'' ! d"

fun digits_of_nat :: "nat \<Rightarrow> string" where
  "digits_of_nat n =
     (if n < 10 then [digit_char n] else digits_of_nat (n div 10) @ [digit_char (n mod 10)])"

declare digits_of_nat.simps [simp del]

definition Number_toString :: "int \<Rightarrow> string" where
  "Number_toString n =
     (if n < 0 then CHR ''-'' # digits_of_nat (nat (- n)) else digits_of_nat (nat n))"

text \<open>
  \<open>parseInt(s, 10)\<close>: leading white space is skipped, one sign is read, then the longest
  run of decimal digits; no digit at all gives \<open>NaN\<close>. The value is the exact integer
  (JavaScript rounds it to a double above \<open>2^53\<close>).
\<close>

datatype number = Number int | NaN

definition isWhiteSpace :: "char \<Rightarrow> bool" where
  "isWhiteSpace c = (c \<in> set [CHR 0x09, CHR 0x0A, CHR 0x0B, CHR 0x0C, CHR 0x0D, CHR '' ''])"

definition isDigit :: "char \<Rightarrow> bool" where
  "isDigit c = ((48::nat) \<le> of_char c \<and> of_char c \<le> (57::nat))"

definition digits_value :: "string \<Rightarrow> int" where
  "digits_value ds = foldl (\<lambda>acc c. 10 * acc + (int (of_char c) - 48)) 0 ds"

definition parseInt10 :: "string \<Rightarrow> number" where
  "parseInt10 s =
     (let t = dropWhile isWhiteSpace s;
          sgn = (case t of c # _ \<Rightarrow> if c = CHR ''-'' then - 1 else 1 | [] \<Rightarrow> 1);
          u = (case t of c # r \<Rightarrow> if c = CHR ''-'' \<or> c = CHR ''+'' then r else t | [] \<Rightarrow> t);
          ds = takeWhile isDigit u
      in if ds = [] then NaN else Number (sgn * digits_value ds))"

subsection \<open>\<open>path.join\<close> (POSIX)\<close>

text \<open>
  Node's \<open>path.posix.join\<close>: the non-empty arguments are joined with a slash and the
  result is normalised. Normalising drops empty and \<open>.\<close> segments, lets \<open>..\<close> remove the
  segment before it (at the root it is dropped, in a relative path it is kept when there is
  nothing to remove), and keeps a leading and a trailing slash.
\<close>

fun normalizeSegments :: "bool \<Rightarrow> string list \<Rightarrow> string list \<Rightarrow> string list" where
  "normalizeSegments allowAboveRoot res [] = res"
| "normalizeSegments allowAboveRoot res (seg # segs) =
     (if seg = [] \<or> seg = ''.'' then normalizeSegments allowAboveRoot res segs
      else if seg = ''..'' then
        (if res \<noteq> [] \<and> last res \<noteq> ''..''
           then normalizeSegments allowAboveRoot (butlast res) segs
         else if allowAboveRoot
           then normalizeSegments allowAboveRoot (res @ [''..'']) segs
         else normalizeSegments allowAboveRoot res segs)
      else normalizeSegments allowAboveRoot (res @ [seg]) segs)"

fun join_with :: "string \<Rightarrow> string list \<Rightarrow> string" where
  "join_with sep [] = []"
| "join_with sep [x] = x"
| "join_with sep (x # y # ys) = x @ sep @ join_with sep (y # ys)"

definition path_normalize :: "string \<Rightarrow> string" where
  "path_normalize p =
     (if p = [] then ''.''
      else
        let isAbsolute = (hd p = CHR ''/'');
            trailingSeparator = (last p = CHR ''/'');
            q = join_with ''/'' (normalizeSegments (\<not> isAbsolute) [] (split CHR ''/'' p))
        in if q = [] then (if isAbsolute then ''/'' else if trailingSeparator then ''./'' else ''.'')
           else (if isAbsolute then ''/'' else []) @ q @ (if trailingSeparator then ''/'' else []))"

definition path_join :: "string list \<Rightarrow> string" where
  "path_join parts =
     (let joined = join_with ''/'' (filter (\<lambda>a. a \<noteq> []) parts)
      in if joined = [] then ''.'' else path_normalize joined)"

subsection \<open>The parameter schema (lines 9--21)\<close>

datatype json =
    JNull
  | JBool bool
  | JNumber real
  | JString string
  | JArray "json list"
  | JObject "(string \<times> json) list"

datatype category = Performance | Accessibility | Seo | BestPractices | Pwa

datatype formFactor = Desktop | Mobile

text \<open>(\<open>output\<close> is a keyword of Isabelle: the type is \<open>output_format\<close>, the field \<open>output'\<close>.)\<close>

datatype output_format = Html | Json

text \<open>What \<open>lighthouseAuditSchema.parse\<close> returns: the four declared keys, nothing else.\<close>

record audit_opts =
  categories :: "category list"
  formFactor :: formFactor
  output' :: output_format
  thresholds :: "(string \<times> real) list option"

text \<open>
  A zod issue is identified by its path from the root of the input. The errors of the
  handler, by origin: the \<open>ZodError\<close> of \<open>parse\<close>, the \<open>Error\<close> thrown at line 43,
  and what \<open>ensureTab\<close>, \<open>fs.mkdir\<close> and \<open>playAudit\<close> throw, which the handler lets
  through with their message.
\<close>

datatype path_elem = Key string | Index nat

datatype error =
    ZodError "path_elem list list"
  | ConfigurationError string
  | TabError string
  | FilesystemError string
  | EngineError string

text \<open>\<open>z.enum([...])\<close>: a string among the listed ones.\<close>

fun category_enum :: "json \<Rightarrow> category option" where
  "category_enum (JString s) =
     (if s = ''performance'' then Some Performance
      else if s = ''accessibility'' then Some Accessibility
      else if s = ''seo'' then Some Seo
      else if s = ''best-practices'' then Some BestPractices
      else if s = ''pwa'' then Some Pwa
      else None)"
| "category_enum _ = None"

fun formFactor_enum :: "json \<Rightarrow> formFactor option" where
  "formFactor_enum (JString s) =
     (if s = ''desktop'' then Some Desktop
      else if s = ''mobile'' then Some Mobile
      else None)"
| "formFactor_enum _ = None"

fun output_enum :: "json \<Rightarrow> output_format option" where
  "output_enum (JString s) =
     (if s = ''html'' then Some Html
      else if s = ''json'' then Some Json
      else None)"
| "output_enum _ = None"

text \<open>
  A zod schema applied to a value gives the issues found (paths relative to the value)
  or the parsed value. \<open>z.array(item)\<close> checks every element and reports each failing
  index; \<open>z.record(z.string(), z.number())\<close> checks every property value and reports
  each failing key, and its result has every property of the input but one under the key
  \<open>__proto__\<close>, which zod leaves out when it builds the parsed object;
  \<open>z.number()\<close> accepts any number, with no bound.
\<close>

fun array_issues :: "('a \<Rightarrow> 'b option) \<Rightarrow> nat \<Rightarrow> 'a list \<Rightarrow> path_elem list list" where
  "array_issues item i [] = []"
| "array_issues item i (x # xs) =
     (case item x of
        None \<Rightarrow> [Index i] # array_issues item (Suc i) xs
      | Some _ \<Rightarrow> array_issues item (Suc i) xs)"

fun array_values :: "('a \<Rightarrow> 'b option) \<Rightarrow> 'a list \<Rightarrow> 'b list option" where
  "array_values item [] = Some []"
| "array_values item (x # xs) =
     (case item x of
        None \<Rightarrow> None
      | Some y \<Rightarrow> map_option ((#) y) (array_values item xs))"

fun z_number :: "json \<Rightarrow> real option" where
  "z_number (JNumber r) = Some r"
| "z_number _ = None"

fun record_issues :: "(string \<times> json) list \<Rightarrow> path_elem list list" where
  "record_issues [] = []"
| "record_issues ((k, v) # kvs) =
     (case z_number v of
        None \<Rightarrow> [Key k] # record_issues kvs
      | Some _ \<Rightarrow> record_issues kvs)"

fun record_values :: "(string \<times> json) list \<Rightarrow> (string \<times> real) list option" where
  "record_values [] = Some []"
| "record_values ((k, v) # kvs) =
     (case z_number v of
        None \<Rightarrow> None
      | Some r \<Rightarrow>
          map_option (\<lambda>kept. if k = ''__proto__'' then kept else (k, r) # kept)
            (record_values kvs))"

text \<open>The four fields. \<open>.default(d)\<close> and \<open>.optional()\<close> act on an absent key only.\<close>

definition parse_categories :: "json option \<Rightarrow> path_elem list list + category list" where
  "parse_categories field =
     (case field of
        None \<Rightarrow> Inr [Accessibility]
      | Some (JArray xs) \<Rightarrow>
          (case array_values category_enum xs of
             Some cs \<Rightarrow> Inr cs
           | None \<Rightarrow> Inl (array_issues category_enum 0 xs))
      | Some _ \<Rightarrow> Inl [[]])"

definition parse_formFactor :: "json option \<Rightarrow> path_elem list list + formFactor" where
  "parse_formFactor field =
     (case field of
        None \<Rightarrow> Inr Desktop
      | Some v \<Rightarrow> (case formFactor_enum v of None \<Rightarrow> Inl [[]] | Some f \<Rightarrow> Inr f))"

definition parse_output :: "json option \<Rightarrow> path_elem list list + output_format" where
  "parse_output field =
     (case field of
        None \<Rightarrow> Inr Html
      | Some v \<Rightarrow> (case output_enum v of None \<Rightarrow> Inl [[]] | Some f \<Rightarrow> Inr f))"

definition parse_thresholds ::
  "json option \<Rightarrow> path_elem list list + (string \<times> real) list option" where
  "parse_thresholds field =
     (case field of
        None \<Rightarrow> Inr None
      | Some (JObject kvs) \<Rightarrow>
          (case record_values kvs of
             Some th \<Rightarrow> Inr (Some th)
           | None \<Rightarrow> Inl (record_issues kvs))
      | Some _ \<Rightarrow> Inl [[]])"

text \<open>
  \<open>z.object({...}).parse\<close>: anything but an object is one issue at the root; otherwise
  every declared key is parsed, the issues of all of them are collected under their key,
  and unknown keys are dropped. \<open>parse\<close> throws when there is an issue.
\<close>

definition issues_at :: "string \<Rightarrow> path_elem list list + 'a \<Rightarrow> path_elem list list" where
  "issues_at k r = (case r of Inl ps \<Rightarrow> map (\<lambda>p. Key k # p) ps | Inr _ \<Rightarrow> [])"

definition lighthouseAuditSchema_parse :: "json \<Rightarrow> error + audit_opts" where
  "lighthouseAuditSchema_parse params =
     (case params of
        JObject kvs \<Rightarrow>
          (let c = parse_categories (map_of kvs ''categories'');
               f = parse_formFactor (map_of kvs ''formFactor'');
               out = parse_output (map_of kvs ''output'');
               t = parse_thresholds (map_of kvs ''thresholds'');
               issues = issues_at ''categories'' c @ issues_at ''formFactor'' f
                        @ issues_at ''output'' out @ issues_at ''thresholds'' t
           in (case (c, f, out, t) of
                 (Inr cs, Inr ff, Inr ou, Inr th) \<Rightarrow>
                    Inr \<lparr>categories = cs, formFactor = ff, output' = ou, thresholds = th\<rparr>
               | _ \<Rightarrow> Inl (ZodError issues)))
      | _ \<Rightarrow> Inl (ZodError [[]]))"

subsection \<open>The handler's world\<close>

text \<open>
  What the handler reads from its context and from the process, and what its
  collaborators answer: a value, or the message of what they throw. \<open>launchOptions\<close>
  and its \<open>args\<close> may both be undefined (the source reads them with \<open>?.\<close>).
\<close>

datatype page = Page nat

record launch_options =
  args :: "string list option"

record report_formats =
  html :: bool
  json :: bool

record reports =
  formats :: report_formats
  name :: string
  directory :: string

text \<open>The argument of \<open>playAudit\<close> (lines 63--73).\<close>

record audit_args =
  page :: page
  port :: number
  arg_thresholds :: "(string \<times> real) list option"
  logLevel :: string
  reports :: reports

text \<open>
  The part of the engine's result the handler reads: \<open>result.lhr.categories\<close>, an
  object from category name to a record with a \<open>score\<close>. The engine's answer is
  modelled by its \<open>lhr\<close>, the only field of \<open>result\<close> that is read.
\<close>

record lhr_category =
  score :: real

record lhr =
  lhr_categories :: "(string \<times> lhr_category) list"

record env =
  launchOptions :: "launch_options option"
  ensureTab :: "string + page"
  cwd :: string
  mkdir :: "string \<Rightarrow> string + unit"
  Date_now :: int
  playAudit :: "audit_args \<Rightarrow> string + lhr"

text \<open>What the handler does to the world, in order.\<close>

datatype event =
    EnsureTab
  | Mkdir string
  | PlayAudit audit_args
  | ConsoleLog lhr

record file_descriptor =
  path :: string
  mediaType :: string

record response =
  code :: "string list"
  files :: "file_descriptor list"
  captureSnapshot :: bool
  waitForNetwork :: bool
  data_scores :: "(string \<times> real) list"

subsection \<open>The handler (lines 32--108)\<close>

text \<open>
  Line 40: the first launch argument that starts with the flag, split at every \<open>=\<close>,
  second piece.
\<close>

definition find_port :: "launch_options option \<Rightarrow> string option" where
  "find_port lo =
     (case lo of
        None \<Rightarrow> None
      | Some l \<Rightarrow>
          (case args l of
             None \<Rightarrow> None
           | Some as \<Rightarrow>
               (case find_first (\<lambda>arg. startsWith arg ''--remote-debugging-port='') as of
                  None \<Rightarrow> None
                | Some arg \<Rightarrow> at_index (split CHR ''='' arg) 1)))"

definition port_error_message :: string where
  "port_error_message =
     ''The Playwright browser was not launched with --remote-debugging-port=<n>. ''
     @ ''Restart the MCP server with that flag so Lighthouse can attach.''"

text \<open>Line 57.\<close>

definition reportFileBase :: "int \<Rightarrow> string" where
  "reportFileBase now = ''lighthouse-'' @ Number_toString now"

text \<open>
  \<open>Object.fromEntries\<close>: the properties are set one after the other, so a key that
  comes twice keeps its first place and its last value. \<open>Object.entries\<close> of an
  association list is the list itself.
\<close>

fun set_property :: "string \<Rightarrow> 'v \<Rightarrow> (string \<times> 'v) list \<Rightarrow> (string \<times> 'v) list" where
  "set_property k v [] = [(k, v)]"
| "set_property k v ((k', v') # obj) =
     (if k' = k then (k, v) # obj else (k', v') # set_property k v obj)"

definition Object_fromEntries :: "(string \<times> 'v) list \<Rightarrow> (string \<times> 'v) list" where
  "Object_fromEntries entries = foldl (\<lambda>obj (k, v). set_property k v obj) [] entries"

text \<open>Lines 77--89.\<close>

definition generatedFiles :: "report_formats \<Rightarrow> string \<Rightarrow> string \<Rightarrow> file_descriptor list" where
  "generatedFiles fmts reportDir base =
     (if html fmts
        then [\<lparr>path = path_join [reportDir, base @ ''.html''], mediaType = ''text/html''\<rparr>]
        else [])
     @ (if json fmts
        then [\<lparr>path = path_join [reportDir, base @ ''.json''], mediaType = ''application/json''\<rparr>]
        else [])"

text \<open>
  The handler. Its first argument is the \<open>captureSnapshot\<close> of the tool factory. It
  returns the trace of effects together with the thrown error or the response. The test
  \<open>!port\<close> of line 42 holds of \<open>undefined\<close> and of the empty string: the two
  branches that throw the configuration error.
\<close>

definition handle :: "bool \<Rightarrow> env \<Rightarrow> json \<Rightarrow> event list \<times> (error + response)" where
  "handle capture e params =
     (case lighthouseAuditSchema_parse params of
        Inl err \<Rightarrow> ([], Inl err)
      | Inr opts \<Rightarrow>
     (case ensureTab e of
        Inl thrown \<Rightarrow> ([EnsureTab], Inl (TabError thrown))
      | Inr pg \<Rightarrow>
     (case find_port (launchOptions e) of
        None \<Rightarrow> ([EnsureTab], Inl (ConfigurationError port_error_message))
      | Some p \<Rightarrow>
      if p = [] then ([EnsureTab], Inl (ConfigurationError port_error_message))
      else
     (let reportDir = path_join [cwd e, ''lighthouse-reports''] in
      case mkdir e reportDir of
        Inl thrown \<Rightarrow> ([EnsureTab, Mkdir reportDir], Inl (FilesystemError thrown))
      | Inr _ \<Rightarrow>
     (let base = reportFileBase (Date_now e);
          fmts = \<lparr>html = (output' opts = Html), json = (output' opts = Json)\<rparr>;
          a = \<lparr>page = pg, port = parseInt10 p, arg_thresholds = thresholds opts,
               logLevel = ''error'',
               reports = \<lparr>formats = fmts, name = base, directory = reportDir\<rparr>\<rparr>
      in case playAudit e a of
        Inl thrown \<Rightarrow> ([EnsureTab, Mkdir reportDir, PlayAudit a], Inl (EngineError thrown))
      | Inr result \<Rightarrow>
          ([EnsureTab, Mkdir reportDir, PlayAudit a, ConsoleLog result],
           Inr \<lparr>code = [''// Lighthouse audit via playwright-lighthouse'',
                         ''await playAudit({ page, port: '' @ p @ '', /* ... */ });''],
                 files = generatedFiles fmts reportDir base,
                 captureSnapshot = capture,
                 waitForNetwork = False,
                 data_scores =
                   Object_fromEntries (map (\<lambda>(k, v). (k, score v)) (lhr_categories result))\<rparr>))))))"

text \<open>The engine calls of a trace.\<close>

fun engine_calls :: "event list \<Rightarrow> audit_args list" where
  "engine_calls [] = []"
| "engine_calls (PlayAudit a # evs) = a # engine_calls evs"
| "engine_calls (_ # evs) = engine_calls evs"

subsection \<open>Well-formed working directories and example worlds\<close>

text \<open>
  \<open>process.cwd()\<close> answers an absolute, normalised path: the root, or a slash before
  each of its segments, none of which is empty, \<open>.\<close> or \<open>..\<close> or contains a slash.
\<close>

definition plain_segment :: "string \<Rightarrow> bool" where
  "plain_segment s = (s \<noteq> [] \<and> CHR ''/'' \<notin> set s \<and> s \<noteq> ''.'' \<and> s \<noteq> ''..'')"

definition absolute_path :: "string list \<Rightarrow> string" where
  "absolute_path segs = (if segs = [] then ''/'' else concat (map (\<lambda>s. CHR ''/'' # s) segs))"

text \<open>
  A world for the examples: a browser launched with the given arguments, a page, a
  writable working directory, a clock and an engine that reports two categories.
\<close>

definition example_env :: "string list \<Rightarrow> env" where
  "example_env launch_args =
     \<lparr>launchOptions = Some \<lparr>args = Some launch_args\<rparr>,
      ensureTab = Inr (Page 0),
      cwd = ''/srv/app'',
      mkdir = (\<lambda>_. Inr ()),
      Date_now = 1700000000000,
      playAudit = (\<lambda>_. Inr \<lparr>lhr_categories =
                     [(''accessibility'', \<lparr>score = 0.93\<rparr>), (''seo'', \<lparr>score = 1\<rparr>)]\<rparr>)\<rparr>"

section \<open>Verification\<close>

subsection \<open>The paths through the handler\<close>

text \<open>
  One lemma for each way out of the handler, and two that read a call of the engine or a
  response back to the path that produced it.
\<close>

lemmas parse_defs = lighthouseAuditSchema_parse_def parse_categories_def parse_formFactor_def
  parse_output_def parse_thresholds_def issues_at_def

lemma handle_parse_error:
  "lighthouseAuditSchema_parse params = Inl err \<Longrightarrow> handle c e params = ([], Inl err)"
  by (simp add: handle_def)

lemma handle_tab_error:
  "lighthouseAuditSchema_parse params = Inr opts \<Longrightarrow> ensureTab e = Inl m \<Longrightarrow>
   handle c e params = ([EnsureTab], Inl (TabError m))"
  by (simp add: handle_def)

lemma handle_no_port:
  "lighthouseAuditSchema_parse params = Inr opts \<Longrightarrow> ensureTab e = Inr pg \<Longrightarrow>
   find_port (launchOptions e) = None \<or> find_port (launchOptions e) = Some [] \<Longrightarrow>
   handle c e params = ([EnsureTab], Inl (ConfigurationError port_error_message))"
  by (auto simp add: handle_def)

lemma no_port_no_engine:
  "find_port (launchOptions e) = None \<or> find_port (launchOptions e) = Some [] \<Longrightarrow>
   engine_calls (fst (handle c e params)) = [] \<and> (\<exists>err. snd (handle c e params) = Inl err)"
  by (auto simp add: handle_def split: sum.splits)

lemma handle_engine_call:
  "lighthouseAuditSchema_parse params = Inr opts \<Longrightarrow> ensureTab e = Inr pg \<Longrightarrow>
   find_port (launchOptions e) = Some p \<Longrightarrow> p \<noteq> [] \<Longrightarrow>
   mkdir e (path_join [cwd e, ''lighthouse-reports'']) = Inr u \<Longrightarrow>
   engine_calls (fst (handle c e params)) =
     [\<lparr>page = pg, port = parseInt10 p, arg_thresholds = thresholds opts, logLevel = ''error'',
       reports = \<lparr>formats = \<lparr>html = (output' opts = Html), json = (output' opts = Json)\<rparr>,
                  name = reportFileBase (Date_now e),
                  directory = path_join [cwd e, ''lighthouse-reports'']\<rparr>\<rparr>]"
  by (auto simp add: handle_def Let_def split: sum.splits)

lemma engine_call_shape:
  "a \<in> set (engine_calls (fst (handle c e params))) \<Longrightarrow>
   \<exists>opts pg p. lighthouseAuditSchema_parse params = Inr opts \<and> ensureTab e = Inr pg \<and>
     find_port (launchOptions e) = Some p \<and> p \<noteq> [] \<and>
     a = \<lparr>page = pg, port = parseInt10 p, arg_thresholds = thresholds opts, logLevel = ''error'',
       reports = \<lparr>formats = \<lparr>html = (output' opts = Html), json = (output' opts = Json)\<rparr>,
                  name = reportFileBase (Date_now e),
                  directory = path_join [cwd e, ''lighthouse-reports'']\<rparr>\<rparr>"
  by (auto simp add: handle_def Let_def split: sum.splits option.splits if_splits)

lemma handle_success:
  "handle c e params = (tr, Inr resp) \<Longrightarrow>
   \<exists>opts pg p r a. lighthouseAuditSchema_parse params = Inr opts \<and> ensureTab e = Inr pg \<and>
     find_port (launchOptions e) = Some p \<and> p \<noteq> [] \<and>
     a = \<lparr>page = pg, port = parseInt10 p, arg_thresholds = thresholds opts, logLevel = ''error'',
       reports = \<lparr>formats = \<lparr>html = (output' opts = Html), json = (output' opts = Json)\<rparr>,
                  name = reportFileBase (Date_now e),
                  directory = path_join [cwd e, ''lighthouse-reports'']\<rparr>\<rparr> \<and>
     playAudit e a = Inr r \<and>
     tr = [EnsureTab, Mkdir (path_join [cwd e, ''lighthouse-reports'']), PlayAudit a, ConsoleLog r] \<and>
     files resp = generatedFiles \<lparr>html = (output' opts = Html), json = (output' opts = Json)\<rparr>
                    (path_join [cwd e, ''lighthouse-reports'']) (reportFileBase (Date_now e)) \<and>
     data_scores resp = Object_fromEntries (map (\<lambda>(k, v). (k, score v)) (lhr_categories r)) \<and>
     captureSnapshot resp = c \<and> waitForNetwork resp = False"
  by (auto simp add: handle_def Let_def split: sum.splits option.splits if_splits)

subsection \<open>Finding the port among the launch arguments\<close>

lemma find_first_None: "(\<forall>x\<in>set xs. \<not> P x) \<Longrightarrow> find_first P xs = None"
  by (induction xs) auto

lemma find_first_Some: "find_first P xs = Some x \<Longrightarrow> x \<in> set xs \<and> P x"
  by (induction xs) (auto split: if_splits)

lemma find_first_append:
  "(\<forall>y\<in>set pre. \<not> P y) \<Longrightarrow> P x \<Longrightarrow> find_first P (pre @ x # post) = Some x"
  by (induction pre) auto

lemma find_first_member: "x \<in> set xs \<Longrightarrow> P x \<Longrightarrow> \<exists>y. find_first P xs = Some y"
  by (induction xs) auto

lemma split_not_Nil: "split sep s \<noteq> []"
  by (induction s) (auto split: list.splits)

lemma split_no_sep: "sep \<notin> set s \<Longrightarrow> split sep s = [s]"
  by (induction s) auto

lemma split_at_sep: "sep \<notin> set s \<Longrightarrow> split sep (s @ sep # rest) = s # split sep rest"
  by (induction s) (auto simp: split_not_Nil split: list.splits)

lemma find_port_absent:
  "launchOptions e = Some lo \<Longrightarrow> args lo = Some as \<Longrightarrow>
   \<forall>a\<in>set as. \<not> startsWith a ''--remote-debugging-port='' \<Longrightarrow>
   find_port (launchOptions e) = None"
  by (simp add: find_port_def find_first_None)

lemma find_port_first:
  assumes "launchOptions e = Some lo"
    and "args lo = Some (pre @ (''--remote-debugging-port='' @ v) # post)"
    and "\<forall>a\<in>set pre. \<not> startsWith a ''--remote-debugging-port=''"
  shows "find_port (launchOptions e) = Some (hd (split CHR ''='' v))"
proof -
  define flag where "flag = ''--remote-debugging-port='' @ v"
  define P where "P = (\<lambda>arg. startsWith arg ''--remote-debugging-port='')"
  have "P flag" by (simp add: P_def flag_def startsWith_def)
  moreover have "\<forall>a\<in>set pre. \<not> P a" using assms(3) by (simp add: P_def)
  ultimately have found: "find_first P (pre @ flag # post) = Some flag"
    by (simp only: find_first_append)
  have "split CHR ''='' flag = ''--remote-debugging-port'' # split CHR ''='' v"
    by (simp add: flag_def)
  then have idx: "at_index (split CHR ''='' flag) 1 = Some (hd (split CHR ''='' v))"
    using split_not_Nil [of "CHR ''=''" v]
    by (cases "split CHR ''='' v") (simp_all add: at_index_def)
  have "find_port (launchOptions e) =
        (case find_first P (pre @ flag # post) of None \<Rightarrow> None
         | Some arg \<Rightarrow> at_index (split CHR ''='' arg) 1)"
    using assms(1,2) by (simp add: find_port_def P_def flag_def del: split.simps)
  then show ?thesis by (simp only: found idx option.case)
qed

lemma find_port_empty_value:
  assumes "launchOptions e = Some lo" "args lo = Some as"
    and only: "\<forall>a\<in>set as. startsWith a ''--remote-debugging-port='' \<longrightarrow> a = ''--remote-debugging-port=''"
    and mem: "''--remote-debugging-port='' \<in> set as"
  shows "find_port (launchOptions e) = Some []"
proof -
  define P where "P = (\<lambda>arg. startsWith arg ''--remote-debugging-port='')"
  have "P ''--remote-debugging-port=''" by (simp add: P_def startsWith_def)
  with mem obtain y where y: "find_first P as = Some y"
    using find_first_member by fastforce
  then have "y \<in> set as \<and> P y" by (rule find_first_Some)
  with only have "y = ''--remote-debugging-port=''" by (simp add: P_def)
  with y have "find_first P as = Some ''--remote-debugging-port=''" by simp
  with assms(1,2) show ?thesis
    by (simp add: find_port_def at_index_def P_def)
qed

subsection \<open>The decimal rendering of the clock\<close>

lemma digit_cases:
  "d < 10 \<Longrightarrow> d = 0 \<or> d = 1 \<or> d = 2 \<or> d = 3 \<or> d = 4 \<or> d = 5 \<or> d = 6 \<or> d = 7 \<or> d = 8 \<or> d = (9::nat)"
  by arith

lemma digit_char_in: "d < 10 \<Longrightarrow> digit_char d \<in> set ''0123456789''"
  by (drule digit_cases) (auto simp add: digit_char_def)

lemma digit_char_value: "d < 10 \<Longrightarrow> int (of_char (digit_char d)) - 48 = int d"
  by (drule digit_cases) (auto simp add: digit_char_def)

lemma digits_of_nat_chars: "set (digits_of_nat n) \<subseteq> set ''0123456789''"
proof (induction n rule: digits_of_nat.induct)
  case (1 n)
  show ?case
  proof (cases "n < 10")
    case True
    then show ?thesis using digit_char_in [of n] by (subst digits_of_nat.simps) simp
  next
    case False
    have "n mod 10 < 10" by simp
    then have "digit_char (n mod 10) \<in> set ''0123456789''" by (rule digit_char_in)
    with False 1 show ?thesis by (subst digits_of_nat.simps) simp
  qed
qed

lemma digits_of_nat_not_Nil: "digits_of_nat n \<noteq> []"
  by (subst digits_of_nat.simps) simp

lemma digits_value_snoc:
  "digits_value (ds @ [c]) = 10 * digits_value ds + (int (of_char c) - 48)"
  by (simp add: digits_value_def)

lemma digits_value_digits_of_nat: "digits_value (digits_of_nat n) = int n"
proof (induction n rule: digits_of_nat.induct)
  case (1 n)
  show ?case
  proof (cases "n < 10")
    case True
    then show ?thesis
      using digit_char_value [of n]
      by (subst digits_of_nat.simps) (simp add: digits_value_def)
  next
    case False
    have "n mod 10 < 10" by simp
    then have "int (of_char (digit_char (n mod 10))) - 48 = int (n mod 10)"
      by (rule digit_char_value)
    moreover have "digits_value (digits_of_nat (n div 10)) = int (n div 10)"
      using False 1 by simp
    ultimately have "digits_value (digits_of_nat (n div 10) @ [digit_char (n mod 10)]) =
        10 * int (n div 10) + int (n mod 10)"
      by (simp only: digits_value_snoc)
    also have "\<dots> = int n" by presburger
    finally show ?thesis using False by (subst digits_of_nat.simps) simp
  qed
qed

lemma digits_of_nat_inj: "digits_of_nat n = digits_of_nat m \<Longrightarrow> n = m"
proof -
  assume "digits_of_nat n = digits_of_nat m"
  then have "digits_value (digits_of_nat n) = digits_value (digits_of_nat m)"
    by (rule arg_cong)
  then have "int n = int m" by (simp only: digits_value_digits_of_nat)
  then show ?thesis by simp
qed

lemma digits_of_nat_no_minus: "hd (digits_of_nat n) \<noteq> CHR ''-''"
proof -
  have "hd (digits_of_nat n) \<in> set (digits_of_nat n)"
    using digits_of_nat_not_Nil by simp
  then have "hd (digits_of_nat n) \<in> set ''0123456789''"
    using digits_of_nat_chars by blast
  then show ?thesis by auto
qed

lemma Number_toString_inj: "Number_toString n = Number_toString m \<Longrightarrow> n = m"
proof -
  assume eq: "Number_toString n = Number_toString m"
  consider "n < 0" "m < 0" | "n < 0" "0 \<le> m" | "0 \<le> n" "m < 0" | "0 \<le> n" "0 \<le> m"
    by linarith
  then show ?thesis
  proof cases
    case 1
    with eq have "digits_of_nat (nat (- n)) = digits_of_nat (nat (- m))"
      by (simp add: Number_toString_def)
    then have "nat (- n) = nat (- m)" by (rule digits_of_nat_inj)
    with 1 show ?thesis by simp
  next
    case 2
    with eq have "digits_of_nat (nat m) = CHR ''-'' # digits_of_nat (nat (- n))"
      by (simp add: Number_toString_def)
    then have "hd (digits_of_nat (nat m)) = CHR ''-''" by simp
    then show ?thesis using digits_of_nat_no_minus by blast
  next
    case 3
    with eq have "digits_of_nat (nat n) = CHR ''-'' # digits_of_nat (nat (- m))"
      by (simp add: Number_toString_def)
    then have "hd (digits_of_nat (nat n)) = CHR ''-''" by simp
    then show ?thesis using digits_of_nat_no_minus by blast
  next
    case 4
    with eq have "digits_of_nat (nat n) = digits_of_nat (nat m)"
      by (simp add: Number_toString_def)
    then have "nat n = nat m" by (rule digits_of_nat_inj)
    with 4 show ?thesis by simp
  qed
qed

lemma Number_toString_chars: "set (Number_toString n) \<subseteq> set ''-0123456789''"
proof (cases "n < 0")
  case True
  then show ?thesis
    using digits_of_nat_chars [of "nat (- n)"] by (simp add: Number_toString_def subset_iff)
next
  case False
  then show ?thesis
    using digits_of_nat_chars [of "nat n"] by (simp add: Number_toString_def subset_iff)
qed

subsection \<open>Joining the report path\<close>

lemma split_segments:
  "list_all plain_segment segs \<Longrightarrow> CHR ''/'' \<notin> set s0 \<Longrightarrow> CHR ''/'' \<notin> set b \<Longrightarrow>
   split CHR ''/'' (s0 @ concat (map (\<lambda>s. CHR ''/'' # s) segs) @ CHR ''/'' # b) = s0 # segs @ [b]"
proof (induction segs arbitrary: s0)
  case Nil
  then show ?case by (simp add: split_at_sep split_no_sep del: split.simps)
next
  case (Cons s segs)
  from Cons.prems have s: "CHR ''/'' \<notin> set s"
    by (simp add: plain_segment_def)
  from Cons.prems have rest: "list_all plain_segment segs"
    by simp
  have "split CHR ''/'' (s0 @ concat (map (\<lambda>s. CHR ''/'' # s) (s # segs)) @ CHR ''/'' # b) =
        split CHR ''/'' (s0 @ CHR ''/'' # (s @ concat (map (\<lambda>s. CHR ''/'' # s) segs) @ CHR ''/'' # b))"
    by simp
  also have "\<dots> = s0 # split CHR ''/'' (s @ concat (map (\<lambda>s. CHR ''/'' # s) segs) @ CHR ''/'' # b)"
    using Cons.prems(2) by (rule split_at_sep)
  also have "\<dots> = s0 # s # segs @ [b]"
    using Cons.IH [OF rest s Cons.prems(3)] by simp
  finally show ?case by simp
qed

lemma normalizeSegments_plain:
  "list_all plain_segment segs \<Longrightarrow> normalizeSegments allow res segs = res @ segs"
  by (induction segs arbitrary: res) (simp_all add: plain_segment_def)

lemma join_with_slash:
  "segs \<noteq> [] \<Longrightarrow> CHR ''/'' # join_with ''/'' segs = concat (map (\<lambda>s. CHR ''/'' # s) segs)"
  by (induction "''/''" segs rule: join_with.induct) simp_all

lemma join_with_not_Nil: "segs \<noteq> [] \<Longrightarrow> hd segs \<noteq> [] \<Longrightarrow> join_with sep segs \<noteq> []"
  by (induction sep segs rule: join_with.induct) simp_all

lemma absolute_path_not_Nil: "list_all plain_segment segs \<Longrightarrow> absolute_path segs \<noteq> []"
  by (cases segs) (simp_all add: absolute_path_def)

lemma path_normalize_absolute:
  assumes segs: "list_all plain_segment segs" and b: "plain_segment b"
  shows "path_normalize (absolute_path segs @ CHR ''/'' # b) = absolute_path (segs @ [b])"
proof -
  let ?p = "absolute_path segs @ CHR ''/'' # b"
  from b have nb: "CHR ''/'' \<notin> set b" and b_ne: "b \<noteq> []" by (simp_all add: plain_segment_def)
  have sp: "normalizeSegments False [] (split CHR ''/'' ?p) = segs @ [b]"
  proof (cases segs)
    case Nil
    then show ?thesis
      using nb b by (simp add: absolute_path_def split_no_sep plain_segment_def)
  next
    case (Cons s ss)
    have "split CHR ''/'' ([] @ concat (map (\<lambda>s. CHR ''/'' # s) segs) @ CHR ''/'' # b) = [] # segs @ [b]"
      using segs _ nb by (rule split_segments) simp
    then have "split CHR ''/'' ?p = [] # segs @ [b]"
      using Cons by (simp add: absolute_path_def)
    moreover have "list_all plain_segment (segs @ [b])" using segs b by simp
    ultimately show ?thesis
      by (simp add: normalizeSegments_plain)
  qed
  have hd_p: "hd ?p = CHR ''/''"
    by (cases segs) (simp_all add: absolute_path_def)
  have "last ?p = last b" using b_ne by simp
  moreover have "last b \<in> set b" using b_ne by simp
  ultimately have last_p: "last ?p \<noteq> CHR ''/''" using nb by metis
  have q_ne: "join_with ''/'' (segs @ [b]) \<noteq> []"
  proof (rule join_with_not_Nil)
    show "segs @ [b] \<noteq> []" by simp
    show "hd (segs @ [b]) \<noteq> []"
      using segs b_ne by (cases segs) (simp_all add: plain_segment_def)
  qed
  have "path_normalize ?p = CHR ''/'' # join_with ''/'' (segs @ [b])"
    using hd_p last_p q_ne sp by (simp add: path_normalize_def Let_def)
  also have "\<dots> = concat (map (\<lambda>s. CHR ''/'' # s) (segs @ [b]))"
    by (rule join_with_slash) simp
  finally show ?thesis by (simp add: absolute_path_def)
qed

lemma path_join_absolute:
  assumes "list_all plain_segment segs" and "plain_segment b"
  shows "path_join [absolute_path segs, b] = absolute_path (segs @ [b])"
proof -
  have "absolute_path segs \<noteq> []" using assms(1) by (rule absolute_path_not_Nil)
  moreover have "b \<noteq> []" using assms(2) by (simp add: plain_segment_def)
  ultimately have "path_join [absolute_path segs, b] =
      path_normalize (absolute_path segs @ CHR ''/'' # b)"
    by (simp add: path_join_def)
  then show ?thesis using assms by (simp only: path_normalize_absolute)
qed

lemma plain_report_file:
  "ext = ''.html'' \<or> ext = ''.json'' \<Longrightarrow> plain_segment (reportFileBase t @ ext)"
proof -
  assume ext: "ext = ''.html'' \<or> ext = ''.json''"
  have "CHR ''/'' \<notin> set (Number_toString t)"
    using Number_toString_chars [of t] by auto
  with ext show ?thesis
    by (auto simp add: plain_segment_def reportFileBase_def)
qed

lemma report_file_path:
  assumes "list_all plain_segment segs" and "ext = ''.html'' \<or> ext = ''.json''"
  shows "path_join [path_join [absolute_path segs, ''lighthouse-reports''], reportFileBase t @ ext] =
         (if segs = [] then [] else absolute_path segs)
           @ ''/lighthouse-reports/'' @ reportFileBase t @ ext"
proof -
  have dir: "plain_segment ''lighthouse-reports''" by (simp add: plain_segment_def)
  have leaf: "plain_segment (reportFileBase t @ ext)" using assms(2) by (rule plain_report_file)
  have "path_join [absolute_path segs, ''lighthouse-reports''] =
        absolute_path (segs @ [''lighthouse-reports''])"
    using assms(1) dir by (rule path_join_absolute)
  moreover have "list_all plain_segment (segs @ [''lighthouse-reports''])"
    using assms(1) dir by simp
  ultimately have "path_join [path_join [absolute_path segs, ''lighthouse-reports''], reportFileBase t @ ext] =
        absolute_path ((segs @ [''lighthouse-reports'']) @ [reportFileBase t @ ext])"
    using leaf by (simp only: path_join_absolute)
  then show ?thesis by (simp add: absolute_path_def)
qed

subsection \<open>Rebuilding the score object\<close>

lemma set_property_keys: "fst ` set (set_property k v obj) = insert k (fst ` set obj)"
proof (induction obj)
  case Nil
  then show ?case by simp
next
  case (Cons kv obj)
  obtain k' v' where kv: "kv = (k', v')" by (cases kv)
  show ?case
    by (cases "k' = k") (simp_all add: kv Cons.IH insert_commute)
qed

lemma set_property_fresh: "k \<notin> fst ` set obj \<Longrightarrow> set_property k v obj = obj @ [(k, v)]"
  by (induction obj) auto

lemma foldl_set_property_keys:
  "fst ` set (foldl (\<lambda>obj (k, v). set_property k v obj) acc entries) =
   fst ` set acc \<union> fst ` set entries"
proof (induction entries arbitrary: acc)
  case Nil
  then show ?case by simp
next
  case (Cons kv entries)
  obtain k v where kv: "kv = (k, v)" by (cases kv)
  show ?case by (simp add: kv Cons.IH set_property_keys)
qed

lemma foldl_set_property_distinct:
  "distinct (map fst (acc @ entries)) \<Longrightarrow>
   foldl (\<lambda>obj (k, v). set_property k v obj) acc entries = acc @ entries"
proof (induction entries arbitrary: acc)
  case Nil
  then show ?case by simp
next
  case (Cons kv entries)
  obtain k v where kv: "kv = (k, v)" by (cases kv)
  from Cons.prems have fresh: "k \<notin> fst ` set acc" by (auto simp add: kv)
  from Cons.prems have "distinct (map fst ((acc @ [(k, v)]) @ entries))" by (simp add: kv)
  then have "foldl (\<lambda>obj (k, v). set_property k v obj) (acc @ [(k, v)]) entries =
             (acc @ [(k, v)]) @ entries"
    by (rule Cons.IH)
  with fresh show ?case by (simp add: kv set_property_fresh)
qed

lemma Object_fromEntries_keys: "fst ` set (Object_fromEntries entries) = fst ` set entries"
  by (simp add: Object_fromEntries_def foldl_set_property_keys)

lemma Object_fromEntries_distinct:
  "distinct (map fst entries) \<Longrightarrow> Object_fromEntries entries = entries"
  using foldl_set_property_distinct [of "[]" entries] by (simp add: Object_fromEntries_def)

lemma score_entries_keys:
  "map fst (map (\<lambda>(k, v). (k, score v)) cats) = map fst cats"
  by (induction cats) auto

lemma map_of_score_entries:
  "map_of (map (\<lambda>(k, v). (k, score v)) cats) k = map_option score (map_of cats k)"
  by (induction cats) auto

subsection \<open>What the schema accepts\<close>

lemma array_values_None: "array_values item xs = None \<longleftrightarrow> (\<exists>x\<in>set xs. item x = None)"
  by (induction xs) (auto split: option.splits)

lemma array_issues_not_Nil: "x \<in> set xs \<Longrightarrow> item x = None \<Longrightarrow> array_issues item i xs \<noteq> []"
  by (induction xs arbitrary: i) (auto split: option.splits)

lemma record_values_None:
  "record_values kvs = None \<longleftrightarrow> (\<exists>(k, v)\<in>set kvs. z_number v = None)"
  by (induction kvs) (auto split: option.splits)

lemma record_issues_not_Nil:
  "(k, v) \<in> set kvs \<Longrightarrow> z_number v = None \<Longrightarrow> record_issues kvs \<noteq> []"
  by (induction kvs) (auto split: option.splits)

lemma record_values_numbers:
  "record_values (map (\<lambda>(k, r). (k, JNumber r)) nums) =
     Some (filter (\<lambda>(k, r). k \<noteq> ''__proto__'') nums)"
  by (induction nums) auto

lemma z_number_None: "z_number v = None \<longleftrightarrow> (\<forall>r. v \<noteq> JNumber r)"
  by (cases v) simp_all

lemma category_enum_None:
  "category_enum v = None \<longleftrightarrow>
   v \<notin> JString ` {''performance'', ''accessibility'', ''seo'', ''best-practices'', ''pwa''}"
  by (cases v) auto

lemma formFactor_enum_None:
  "formFactor_enum v = None \<longleftrightarrow> v \<notin> JString ` {''desktop'', ''mobile''}"
  by (cases v) auto

lemma output_enum_None:
  "output_enum v = None \<longleftrightarrow> v \<notin> JString ` {''html'', ''json''}"
  by (cases v) auto

lemma parse_categories_issues: "parse_categories field = Inl ps \<Longrightarrow> ps \<noteq> []"
  by (auto simp add: parse_categories_def array_values_None
           dest: array_issues_not_Nil split: option.splits json.splits)

lemma parse_formFactor_issues: "parse_formFactor field = Inl ps \<Longrightarrow> ps \<noteq> []"
  by (auto simp add: parse_formFactor_def split: option.splits)

lemma parse_output_issues: "parse_output field = Inl ps \<Longrightarrow> ps \<noteq> []"
  by (auto simp add: parse_output_def split: option.splits)

lemma parse_thresholds_issues: "parse_thresholds field = Inl ps \<Longrightarrow> ps \<noteq> []"
  by (auto simp add: parse_thresholds_def record_values_None
           dest: record_issues_not_Nil split: option.splits json.splits)

text \<open>The object schema fails as soon as one field fails, and succeeds when all four do.\<close>

lemma parse_object_error:
  assumes "(\<exists>ps. parse_categories (map_of kvs ''categories'') = Inl ps)
         \<or> (\<exists>ps. parse_formFactor (map_of kvs ''formFactor'') = Inl ps)
         \<or> (\<exists>ps. parse_output (map_of kvs ''output'') = Inl ps)
         \<or> (\<exists>ps. parse_thresholds (map_of kvs ''thresholds'') = Inl ps)"
  shows "\<exists>issues. issues \<noteq> [] \<and> lighthouseAuditSchema_parse (JObject kvs) = Inl (ZodError issues)"
proof -
  define c where "c = parse_categories (map_of kvs ''categories'')"
  define f where "f = parse_formFactor (map_of kvs ''formFactor'')"
  define ou where "ou = parse_output (map_of kvs ''output'')"
  define t where "t = parse_thresholds (map_of kvs ''thresholds'')"
  define issues where "issues = issues_at ''categories'' c @ issues_at ''formFactor'' f
                 @ issues_at ''output'' ou @ issues_at ''thresholds'' t"
  have eq: "lighthouseAuditSchema_parse (JObject kvs) =
      (case (c, f, ou, t) of
         (Inr cs, Inr ff, Inr ou, Inr th) \<Rightarrow>
            Inr \<lparr>categories = cs, formFactor = ff, output' = ou, thresholds = th\<rparr>
       | _ \<Rightarrow> Inl (ZodError issues))"
    unfolding lighthouseAuditSchema_parse_def c_def f_def ou_def t_def issues_def Let_def
    by (simp only: json.case)
  from assms consider ps where "c = Inl ps" | ps where "f = Inl ps"
    | ps where "ou = Inl ps" | ps where "t = Inl ps"
    unfolding c_def f_def ou_def t_def by blast
  then have "lighthouseAuditSchema_parse (JObject kvs) = Inl (ZodError issues) \<and> issues \<noteq> []"
  proof cases
    case 1
    then have "ps \<noteq> []" unfolding c_def by (rule parse_categories_issues)
    with 1 show ?thesis by (simp add: eq issues_def issues_at_def split: sum.splits)
  next
    case 2
    then have "ps \<noteq> []" unfolding f_def by (rule parse_formFactor_issues)
    with 2 show ?thesis by (simp add: eq issues_def issues_at_def split: sum.splits)
  next
    case 3
    then have "ps \<noteq> []" unfolding ou_def by (rule parse_output_issues)
    with 3 show ?thesis by (simp add: eq issues_def issues_at_def split: sum.splits)
  next
    case 4
    then have "ps \<noteq> []" unfolding t_def by (rule parse_thresholds_issues)
    with 4 show ?thesis by (simp add: eq issues_def issues_at_def split: sum.splits)
  qed
  then show ?thesis by blast
qed

lemma parse_object_ok:
  assumes "parse_categories (map_of kvs ''categories'') = Inr cs"
    and "parse_formFactor (map_of kvs ''formFactor'') = Inr ff"
    and "parse_output (map_of kvs ''output'') = Inr ou"
    and "parse_thresholds (map_of kvs ''thresholds'') = Inr th"
  shows "lighthouseAuditSchema_parse (JObject kvs) =
         Inr \<lparr>categories = cs, formFactor = ff, output' = ou, thresholds = th\<rparr>"
  using assms by (simp add: lighthouseAuditSchema_parse_def)

lemma parse_object_fields:
  assumes "lighthouseAuditSchema_parse (JObject kvs) = Inr opts"
  shows "parse_categories (map_of kvs ''categories'') = Inr (categories opts)
       \<and> parse_formFactor (map_of kvs ''formFactor'') = Inr (formFactor opts)
       \<and> parse_output (map_of kvs ''output'') = Inr (output' opts)
       \<and> parse_thresholds (map_of kvs ''thresholds'') = Inr (thresholds opts)"
proof -
  define c where "c = parse_categories (map_of kvs ''categories'')"
  define f where "f = parse_formFactor (map_of kvs ''formFactor'')"
  define ou where "ou = parse_output (map_of kvs ''output'')"
  define t where "t = parse_thresholds (map_of kvs ''thresholds'')"
  define issues where "issues = issues_at ''categories'' c @ issues_at ''formFactor'' f
                 @ issues_at ''output'' ou @ issues_at ''thresholds'' t"
  have "lighthouseAuditSchema_parse (JObject kvs) =
      (case (c, f, ou, t) of
         (Inr cs, Inr ff, Inr ou, Inr th) \<Rightarrow>
            Inr \<lparr>categories = cs, formFactor = ff, output' = ou, thresholds = th\<rparr>
       | _ \<Rightarrow> Inl (ZodError issues))"
    unfolding lighthouseAuditSchema_parse_def c_def f_def ou_def t_def issues_def Let_def
    by (simp only: json.case)
  with assms have "c = Inr (categories opts) \<and> f = Inr (formFactor opts)
      \<and> ou = Inr (output' opts) \<and> t = Inr (thresholds opts)"
    by (cases c; cases f; cases ou; cases t) auto
  then show ?thesis by (simp only: c_def f_def ou_def t_def)
qed

lemma map_of_absent: "k \<notin> fst ` set kvs \<Longrightarrow> map_of kvs k = None"
  by (simp add: map_of_eq_None_iff)

subsection \<open>More facts about the handler, and the example world\<close>

lemma handle_launchOptions_irrelevant:
  assumes "find_port (launchOptions e) = None \<or> find_port (launchOptions e) = Some []"
    and "find_port lo' = None \<or> find_port lo' = Some []"
  shows "handle c e params = handle c (e\<lparr>launchOptions := lo'\<rparr>) params"
proof (cases "lighthouseAuditSchema_parse params")
  case (Inl err)
  then show ?thesis by (simp add: handle_parse_error)
next
  case (Inr opts)
  show ?thesis
  proof (cases "ensureTab e")
    case (Inl m)
    with Inr show ?thesis by (simp add: handle_tab_error)
  next
    case tab: (Inr pg)
    have "handle c e params = ([EnsureTab], Inl (ConfigurationError port_error_message))"
      using Inr tab assms(1) by (rule handle_no_port)
    moreover have "handle c (e\<lparr>launchOptions := lo'\<rparr>) params =
        ([EnsureTab], Inl (ConfigurationError port_error_message))"
      using Inr _ _ by (rule handle_no_port) (simp_all add: tab assms(2))
    ultimately show ?thesis by simp
  qed
qed

lemma port_error_message_text:
  "port_error_message =
     ''The Playwright browser was not launched with --remote-debugging-port=<n>. Restart the MCP server with that flag so Lighthouse can attach.''"
  by (simp add: port_error_message_def)

lemma hd_split: "hd (split sep s) = takeWhile (\<lambda>c. c \<noteq> sep) s"
  by (induction s) (auto simp add: split_not_Nil split: list.splits)

lemma parseInt10_NaN:
  "\<not> isWhiteSpace ch \<Longrightarrow> \<not> isDigit ch \<Longrightarrow> ch \<noteq> CHR ''-'' \<Longrightarrow> ch \<noteq> CHR ''+'' \<Longrightarrow>
   parseInt10 (ch # rest) = NaN"
  by (simp add: parseInt10_def)

lemma parseInt10_9222: "parseInt10 ''9222'' = Number 9222"
  by (simp add: parseInt10_def isWhiteSpace_def isDigit_def digits_value_def)

lemma handle_outcome:
  assumes "lighthouseAuditSchema_parse params = Inr opts" and "ensureTab e = Inr pg"
    and "find_port (launchOptions e) = Some p" and "p \<noteq> []"
    and "mkdir e (path_join [cwd e, ''lighthouse-reports'']) = Inr u"
  shows "(\<exists>m. snd (handle c e params) = Inl (EngineError m))
       \<or> (\<exists>resp. snd (handle c e params) = Inr resp)"
  using assms by (auto simp add: handle_def Let_def split: sum.splits)

lemma absolute_path_root: "list_all plain_segment segs \<Longrightarrow> absolute_path segs = ''/'' \<longleftrightarrow> segs = []"
  by (cases segs) (auto simp add: absolute_path_def plain_segment_def)

lemma example_env_returns:
  assumes "lighthouseAuditSchema_parse params = Inr opts"
  shows "\<exists>tr resp. handle c (example_env [''--remote-debugging-port=9222'']) params = (tr, Inr resp)"
proof -
  have "find_port (launchOptions (example_env [''--remote-debugging-port=9222''])) = Some ''9222''"
    by (simp add: example_env_def find_port_def startsWith_def at_index_def)
  with assms show ?thesis
    by (simp add: handle_def example_env_def Let_def)
qed

lemma example_env_cwd:
  "cwd (example_env as) = absolute_path [''srv'', ''app''] \<and> list_all plain_segment [''srv'', ''app'']"
  by (simp add: example_env_def absolute_path_def plain_segment_def)

lemma example_env_clock: "Number_toString (Date_now (example_env as)) = ''1700000000000''"
  by (simp add: example_env_def Number_toString_def digits_of_nat.simps digit_char_def)

lemma parse_empty_object:
  "lighthouseAuditSchema_parse (JObject []) =
     Inr \<lparr>categories = [Accessibility], formFactor = Desktop, output' = Html, thresholds = None\<rparr>"
  by (simp add: parse_defs)

lemma parse_json_output:
  "lighthouseAuditSchema_parse (JObject [(''output'', JString ''json'')]) =
     Inr \<lparr>categories = [Accessibility], formFactor = Desktop, output' = Json, thresholds = None\<rparr>"
  by (simp add: parse_defs)

lemma map_of_without_key:
  "map_of (filter (\<lambda>(k, v). k \<noteq> x) kvs) y = (if y = x then None else map_of kvs y)"
  by (induction kvs) auto

lemma example_env_port:
  "find_port (launchOptions (example_env [''--remote-debugging-port=9222''])) = Some ''9222''"
  by (simp add: example_env_def find_port_def startsWith_def at_index_def)

lemma example_env_tab: "ensureTab (example_env as) = Inr (Page 0)"
  by (simp add: example_env_def)

lemma example_env_mkdir: "mkdir (example_env as) dir = Inr ()"
  by (simp add: example_env_def)

lemma engine_call_name:
  "a \<in> set (engine_calls (fst (handle c e params))) \<Longrightarrow>
   name (reports a) = ''lighthouse-'' @ Number_toString (Date_now e)"
  by (drule engine_call_shape) (auto simp add: reportFileBase_def)

section \<open>The claims\<close>

text \<open>
  \<^bold>\<open>C1\<close>, as amended. The schema checks the values of \<open>thresholds\<close> for their type
  only. A mapping with a value that is not a number fails validation, and the handler
  throws with an empty trace: no audit engine invocation. A mapping of numbers passes,
  whatever the numbers: a request that is valid without its \<open>thresholds\<close> is valid with
  them, and every call of the engine gets the entries of the mapping as they came, in
  their order, less an entry under the key \<open>__proto__\<close>.
\<close>

theorem C1_thresholds_checked_for_type_only:
  "(\<forall>ths k x. map_of kvs ''thresholds'' = Some (JObject ths) \<and> (k, x) \<in> set ths
        \<and> (\<forall>r. x \<noteq> JNumber r) \<longrightarrow>
      (\<exists>issues. issues \<noteq> []
         \<and> lighthouseAuditSchema_parse (JObject kvs) = Inl (ZodError issues)
         \<and> handle c e (JObject kvs) = ([], Inl (ZodError issues))))
   \<and> (\<forall>nums opts.
        map_of kvs ''thresholds'' = Some (JObject (map (\<lambda>(k, r). (k, JNumber r)) nums))
        \<and> lighthouseAuditSchema_parse (JObject (filter (\<lambda>(k, v). k \<noteq> ''thresholds'') kvs)) = Inr opts
        \<longrightarrow>
      lighthouseAuditSchema_parse (JObject kvs) =
        Inr (opts\<lparr>thresholds := Some (filter (\<lambda>(k, r). k \<noteq> ''__proto__'') nums)\<rparr>)
      \<and> (\<forall>a\<in>set (engine_calls (fst (handle c e (JObject kvs)))).
            arg_thresholds a = Some (filter (\<lambda>(k, r). k \<noteq> ''__proto__'') nums)))"
proof (intro conjI allI impI)
  fix ths k x
  assume h: "map_of kvs ''thresholds'' = Some (JObject ths) \<and> (k, x) \<in> set ths
        \<and> (\<forall>r. x \<noteq> JNumber r)"
  then have "z_number x = None" by (simp add: z_number_None)
  with h have "record_values ths = None"
    unfolding record_values_None by blast
  with h have "\<exists>ps. parse_thresholds (map_of kvs ''thresholds'') = Inl ps"
    by (simp add: parse_thresholds_def)
  then obtain issues where "issues \<noteq> []"
    and "lighthouseAuditSchema_parse (JObject kvs) = Inl (ZodError issues)"
    using parse_object_error [of kvs] by blast
  then show "\<exists>issues. issues \<noteq> []
         \<and> lighthouseAuditSchema_parse (JObject kvs) = Inl (ZodError issues)
         \<and> handle c e (JObject kvs) = ([], Inl (ZodError issues))"
    by (auto simp add: handle_parse_error)
next
  fix nums opts
  assume h: "map_of kvs ''thresholds'' = Some (JObject (map (\<lambda>(k, r). (k, JNumber r)) nums))
        \<and> lighthouseAuditSchema_parse (JObject (filter (\<lambda>(k, v). k \<noteq> ''thresholds'') kvs)) = Inr opts"
  let ?rest = "filter (\<lambda>(k, v). k \<noteq> ''thresholds'') kvs"
  from h have fields: "parse_categories (map_of ?rest ''categories'') = Inr (categories opts)
       \<and> parse_formFactor (map_of ?rest ''formFactor'') = Inr (formFactor opts)
       \<and> parse_output (map_of ?rest ''output'') = Inr (output' opts)
       \<and> parse_thresholds (map_of ?rest ''thresholds'') = Inr (thresholds opts)"
    by (intro parse_object_fields) simp
  have c: "parse_categories (map_of kvs ''categories'') = Inr (categories opts)"
    and f: "parse_formFactor (map_of kvs ''formFactor'') = Inr (formFactor opts)"
    and ou: "parse_output (map_of kvs ''output'') = Inr (output' opts)"
    using fields by (simp_all add: map_of_without_key)
  define kept where "kept = filter (\<lambda>(k, r). k \<noteq> ''__proto__'') nums"
  have t: "parse_thresholds (map_of kvs ''thresholds'') = Inr (Some kept)"
    using h by (simp add: parse_thresholds_def record_values_numbers kept_def)
  have "lighthouseAuditSchema_parse (JObject kvs) =
        Inr \<lparr>categories = categories opts, formFactor = formFactor opts,
             output' = output' opts, thresholds = Some kept\<rparr>"
    using c f ou t by (rule parse_object_ok)
  then have ok: "lighthouseAuditSchema_parse (JObject kvs) = Inr (opts\<lparr>thresholds := Some kept\<rparr>)"
    by simp
  then show "lighthouseAuditSchema_parse (JObject kvs) =
        Inr (opts\<lparr>thresholds := Some (filter (\<lambda>(k, r). k \<noteq> ''__proto__'') nums)\<rparr>)"
    by (simp only: kept_def)
  show "\<forall>a\<in>set (engine_calls (fst (handle c e (JObject kvs)))).
          arg_thresholds a = Some (filter (\<lambda>(k, r). k \<noteq> ''__proto__'') nums)"
  proof
    fix a
    assume "a \<in> set (engine_calls (fst (handle c e (JObject kvs))))"
    then obtain opts' pg p where "lighthouseAuditSchema_parse (JObject kvs) = Inr opts'"
      and "a = \<lparr>page = pg, port = parseInt10 p, arg_thresholds = thresholds opts',
                logLevel = ''error'',
                reports = \<lparr>formats = \<lparr>html = (output' opts' = Html), json = (output' opts' = Json)\<rparr>,
                           name = reportFileBase (Date_now e),
                           directory = path_join [cwd e, ''lighthouse-reports'']\<rparr>\<rparr>"
      using engine_call_shape by blast
    with ok have "arg_thresholds a = Some kept" by simp
    then show "arg_thresholds a = Some (filter (\<lambda>(k, r). k \<noteq> ''__proto__'') nums)"
      by (simp only: kept_def)
  qed
qed

theorem C1_thresholds_checked_for_type_only_witness:
  "(\<exists>issues. issues \<noteq> []
      \<and> handle False (example_env [''--remote-debugging-port=9222''])
            (JObject [(''thresholds'', JObject [(''seo'', JString ''90'')])])
          = ([], Inl (ZodError issues)))
   \<and> lighthouseAuditSchema_parse
         (JObject [(''thresholds'',
            JObject [(''accessibility'', JNumber 150), (''__proto__'', JNumber 5),
                     (''seo'', JNumber (- 5))])])
       = Inr \<lparr>categories = [Accessibility], formFactor = Desktop, output' = Html,
              thresholds = Some [(''accessibility'', 150), (''seo'', - 5)]\<rparr>
   \<and> map arg_thresholds
         (engine_calls (fst (handle False (example_env [''--remote-debugging-port=9222''])
            (JObject [(''thresholds'',
               JObject [(''accessibility'', JNumber 150), (''__proto__'', JNumber 5),
                        (''seo'', JNumber (- 5))])]))))
       = [Some [(''accessibility'', 150), (''seo'', - 5)]]"
proof -
  let ?e = "example_env [''--remote-debugging-port=9222'']"
  let ?bad = "[(''thresholds'', JObject [(''seo'', JString ''90'')])]"
  let ?good = "[(''thresholds'',
            JObject [(''accessibility'', JNumber 150), (''__proto__'', JNumber 5),
                     (''seo'', JNumber (- 5))])]"
  let ?nums = "[(''accessibility'', 150), (''__proto__'', 5), (''seo'', - 5)] :: (string \<times> real) list"
  let ?opts = "\<lparr>categories = [Accessibility], formFactor = Desktop, output' = Html,
                thresholds = Some [(''accessibility'', 150 :: real), (''seo'', - 5)]\<rparr>"
  have "map_of ?bad ''thresholds'' = Some (JObject [(''seo'', JString ''90'')])
        \<and> (''seo'', JString ''90'') \<in> set [(''seo'', JString ''90'')]
        \<and> (\<forall>r. JString ''90'' \<noteq> JNumber r)"
    by simp
  with C1_thresholds_checked_for_type_only [of ?bad False ?e]
  have 1: "\<exists>issues. issues \<noteq> [] \<and> handle False ?e (JObject ?bad) = ([], Inl (ZodError issues))"
    by blast
  have "map_of ?good ''thresholds'' = Some (JObject (map (\<lambda>(k, r). (k, JNumber r)) ?nums))
        \<and> lighthouseAuditSchema_parse (JObject (filter (\<lambda>(k, v). k \<noteq> ''thresholds'') ?good)) =
          Inr \<lparr>categories = [Accessibility], formFactor = Desktop, output' = Html, thresholds = None\<rparr>"
    by (simp add: parse_empty_object)
  with C1_thresholds_checked_for_type_only [of ?good False ?e]
  have both: "lighthouseAuditSchema_parse (JObject ?good) =
      Inr (\<lparr>categories = [Accessibility], formFactor = Desktop, output' = Html, thresholds = None\<rparr>
           \<lparr>thresholds := Some (filter (\<lambda>(k, r). k \<noteq> ''__proto__'') ?nums)\<rparr>)
    \<and> (\<forall>a\<in>set (engine_calls (fst (handle False ?e (JObject ?good)))).
          arg_thresholds a = Some (filter (\<lambda>(k, r). k \<noteq> ''__proto__'') ?nums))"
    by blast
  then have 2: "lighthouseAuditSchema_parse (JObject ?good) = Inr ?opts"
    by simp
  obtain a where calls: "engine_calls (fst (handle False ?e (JObject ?good))) = [a]"
    using handle_engine_call [OF 2 example_env_tab example_env_port _ example_env_mkdir]
    by simp
  with both have "arg_thresholds a = Some (filter (\<lambda>(k, r). k \<noteq> ''__proto__'') ?nums)"
    by simp
  then have "arg_thresholds a = Some [(''accessibility'', 150), (''seo'', - 5)]"
    by simp
  with calls have 3: "map arg_thresholds (engine_calls (fst (handle False ?e (JObject ?good))))
       = [Some [(''accessibility'', 150), (''seo'', - 5)]]"
    by simp
  from 1 2 3 show ?thesis by (intro conjI)
qed

text \<open>
  As written, with the range \<open>[0,100]\<close>, the statement fails: a threshold of \<open>150\<close>
  passes validation and is handed to the engine.
\<close>

theorem C1_counterexample:
  "(100::real) < 150
   \<and> lighthouseAuditSchema_parse (JObject [(''thresholds'', JObject [(''accessibility'', JNumber 150)])])
       = Inr \<lparr>categories = [Accessibility], formFactor = Desktop, output' = Html,
              thresholds = Some [(''accessibility'', 150)]\<rparr>
   \<and> map arg_thresholds
         (engine_calls (fst (handle False (example_env [''--remote-debugging-port=9222''])
            (JObject [(''thresholds'', JObject [(''accessibility'', JNumber 150)])]))))
       = [Some [(''accessibility'', 150)]]"
proof -
  let ?e = "example_env [''--remote-debugging-port=9222'']"
  have p: "lighthouseAuditSchema_parse (JObject [(''thresholds'', JObject [(''accessibility'', JNumber 150)])])
       = Inr \<lparr>categories = [Accessibility], formFactor = Desktop, output' = Html,
              thresholds = Some [(''accessibility'', 150)]\<rparr>"
    by (simp add: parse_defs)
  have "engine_calls (fst (handle False ?e
            (JObject [(''thresholds'', JObject [(''accessibility'', JNumber 150)])]))) =
     [\<lparr>page = Page 0, port = parseInt10 ''9222'',
       arg_thresholds = thresholds \<lparr>categories = [Accessibility], formFactor = Desktop, output' = Html,
              thresholds = Some [(''accessibility'', 150)]\<rparr>, logLevel = ''error'',
       reports = \<lparr>formats = \<lparr>html = (output' \<lparr>categories = [Accessibility], formFactor = Desktop, output' = Html,
              thresholds = Some [(''accessibility'', 150)]\<rparr> = Html), json = (output' \<lparr>categories = [Accessibility], formFactor = Desktop, output' = Html,
              thresholds = Some [(''accessibility'', 150)]\<rparr> = Json)\<rparr>,
                  name = reportFileBase (Date_now ?e),
                  directory = path_join [cwd ?e, ''lighthouse-reports'']\<rparr>\<rparr>]"
    using p example_env_tab example_env_port _ example_env_mkdir
    by (rule handle_engine_call) simp
  then show ?thesis using p by simp
qed

text \<open>
  \<^bold>\<open>C2\<close>, as amended. The base name given to the engine is \<open>lighthouse-\<close> followed
  by the decimal clock reading, and nothing else: the base names of two invocations are
  distinct exactly when their clock readings are, and equal when the readings are equal.
\<close>

theorem C2_base_name_follows_clock:
  assumes "a1 \<in> set (engine_calls (fst (handle c1 e1 p1)))"
    and "a2 \<in> set (engine_calls (fst (handle c2 e2 p2)))"
  shows "name (reports a1) = ''lighthouse-'' @ Number_toString (Date_now e1)
       \<and> name (reports a2) = ''lighthouse-'' @ Number_toString (Date_now e2)
       \<and> (name (reports a1) \<noteq> name (reports a2)) = (Date_now e1 \<noteq> Date_now e2)"
proof -
  have n1: "name (reports a1) = ''lighthouse-'' @ Number_toString (Date_now e1)"
    using assms(1) by (rule engine_call_name)
  have n2: "name (reports a2) = ''lighthouse-'' @ Number_toString (Date_now e2)"
    using assms(2) by (rule engine_call_name)
  have "(name (reports a1) = name (reports a2)) = (Date_now e1 = Date_now e2)"
  proof
    assume "name (reports a1) = name (reports a2)"
    then have "Number_toString (Date_now e1) = Number_toString (Date_now e2)"
      by (simp add: n1 n2)
    then show "Date_now e1 = Date_now e2" by (rule Number_toString_inj)
  next
    assume "Date_now e1 = Date_now e2"
    then show "name (reports a1) = name (reports a2)" by (simp add: n1 n2)
  qed
  with n1 n2 show ?thesis by simp
qed

theorem C2_base_name_follows_clock_witness:
  "\<exists>a1 a2.
     engine_calls (fst (handle False (example_env [''--remote-debugging-port=9222'']) (JObject [])))
       = [a1]
     \<and> engine_calls (fst (handle False
            ((example_env [''--remote-debugging-port=9222''])\<lparr>Date_now := 1700000000001\<rparr>)
            (JObject [])))
       = [a2]
     \<and> name (reports a1) = ''lighthouse-1700000000000''
     \<and> name (reports a2) = ''lighthouse-1700000000001''
     \<and> name (reports a1) \<noteq> name (reports a2)"
proof -
  let ?e1 = "example_env [''--remote-debugging-port=9222'']"
  let ?e2 = "(example_env [''--remote-debugging-port=9222''])\<lparr>Date_now := 1700000000001\<rparr>"
  have port2: "find_port (launchOptions ?e2) = Some ''9222''"
    using example_env_port by simp
  have tab2: "ensureTab ?e2 = Inr (Page 0)" by (simp add: example_env_def)
  have mk2: "mkdir ?e2 (path_join [cwd ?e2, ''lighthouse-reports'']) = Inr ()"
    by (simp add: example_env_def)
  obtain a1 where a1: "engine_calls (fst (handle False ?e1 (JObject []))) = [a1]"
    using handle_engine_call [OF parse_empty_object example_env_tab example_env_port _ example_env_mkdir]
    by simp
  obtain a2 where a2: "engine_calls (fst (handle False ?e2 (JObject []))) = [a2]"
    using handle_engine_call [OF parse_empty_object tab2 port2 _ mk2]
    by simp
  have "a1 \<in> set (engine_calls (fst (handle False ?e1 (JObject []))))" by (simp add: a1)
  moreover have "a2 \<in> set (engine_calls (fst (handle False ?e2 (JObject []))))" by (simp add: a2)
  ultimately have "name (reports a1) = ''lighthouse-'' @ Number_toString (Date_now ?e1)
       \<and> name (reports a2) = ''lighthouse-'' @ Number_toString (Date_now ?e2)
       \<and> (name (reports a1) \<noteq> name (reports a2)) = (Date_now ?e1 \<noteq> Date_now ?e2)"
    by (rule C2_base_name_follows_clock)
  moreover have "Date_now ?e1 \<noteq> Date_now ?e2" by (simp add: example_env_def)
  moreover have "Number_toString (Date_now ?e2) = ''1700000000001''"
    by (simp add: Number_toString_def digits_of_nat.simps digit_char_def)
  ultimately have "name (reports a1) = ''lighthouse-1700000000000''
     \<and> name (reports a2) = ''lighthouse-1700000000001''
     \<and> name (reports a1) \<noteq> name (reports a2)"
    by (simp add: example_env_clock)
  with a1 a2 show ?thesis by blast
qed

text \<open>
  As written, with distinct names under one clock reading, the statement fails: two
  invocations with different parameters at the same millisecond name their reports alike.
\<close>

theorem C2_counterexample:
  "map (\<lambda>a. name (reports a))
       (engine_calls (fst (handle False (example_env [''--remote-debugging-port=9222''])
          (JObject []))))
     = [''lighthouse-1700000000000'']
   \<and> map (\<lambda>a. name (reports a))
       (engine_calls (fst (handle True (example_env [''--remote-debugging-port=9222''])
          (JObject [(''categories'', JArray [JString ''seo''])]))))
     = [''lighthouse-1700000000000'']"
proof -
  let ?e = "example_env [''--remote-debugging-port=9222'']"
  have base: "reportFileBase (Date_now ?e) = ''lighthouse-1700000000000''"
    by (simp add: reportFileBase_def example_env_clock)
  have p2: "lighthouseAuditSchema_parse (JObject [(''categories'', JArray [JString ''seo''])]) =
      Inr \<lparr>categories = [Seo], formFactor = Desktop, output' = Html, thresholds = None\<rparr>"
    by (simp add: parse_defs)
  have "map (\<lambda>a. name (reports a)) (engine_calls (fst (handle False ?e (JObject []))))
          = [reportFileBase (Date_now ?e)]"
    using handle_engine_call [OF parse_empty_object example_env_tab example_env_port _ example_env_mkdir, of False]
    by simp
  moreover have "map (\<lambda>a. name (reports a))
       (engine_calls (fst (handle True ?e (JObject [(''categories'', JArray [JString ''seo''])]))))
          = [reportFileBase (Date_now ?e)]"
    using handle_engine_call [OF p2 example_env_tab example_env_port _ example_env_mkdir, of True]
    by simp
  ultimately show ?thesis by (simp only: base)
qed

text \<open>
  \<^bold>\<open>C3.\<close> Every input object that has none of the keys \<open>categories\<close>, \<open>formFactor\<close>,
  \<open>output\<close> and \<open>thresholds\<close> is normalised to the declared defaults: the one category
  accessibility, the desktop form factor, the html output and no thresholds.
\<close>

theorem C3_defaults_when_omitted:
  assumes "{''categories'', ''formFactor'', ''output'', ''thresholds''} \<inter> fst ` set kvs = {}"
  shows "lighthouseAuditSchema_parse (JObject kvs) =
         Inr \<lparr>categories = [Accessibility], formFactor = Desktop, output' = Html,
              thresholds = None\<rparr>"
proof -
  from assms have "map_of kvs ''categories'' = None" "map_of kvs ''formFactor'' = None"
    "map_of kvs ''output'' = None" "map_of kvs ''thresholds'' = None"
    by (simp_all add: map_of_absent)
  then show ?thesis
    by (intro parse_object_ok)
       (simp_all add: parse_categories_def parse_formFactor_def parse_output_def
          parse_thresholds_def)
qed

theorem C3_defaults_when_omitted_witness:
  "{''categories'', ''formFactor'', ''output'', ''thresholds''}
     \<inter> fst ` set [(''url'', JString ''https://example.org'')] = {}
   \<and> lighthouseAuditSchema_parse (JObject [(''url'', JString ''https://example.org'')]) =
       Inr \<lparr>categories = [Accessibility], formFactor = Desktop, output' = Html,
            thresholds = None\<rparr>"
proof -
  have h: "{''categories'', ''formFactor'', ''output'', ''thresholds''}
     \<inter> fst ` set [(''url'', JString ''https://example.org'')] = {}"
    by simp
  show ?thesis using h C3_defaults_when_omitted [OF h] by simp
qed

text \<open>
  \<^bold>\<open>C4.\<close> An input whose \<open>categories\<close> array has an element outside the five category
  names, or whose \<open>formFactor\<close> is not one of desktop and mobile, or whose \<open>output\<close> is not
  one of html and json, fails validation with at least one issue; the handler throws that
  error with an empty trace, so the audit engine is not invoked.
\<close>

theorem C4_enum_violation_fails_validation:
  assumes "(\<exists>xs x. map_of kvs ''categories'' = Some (JArray xs) \<and> x \<in> set xs
              \<and> x \<notin> JString ` {''performance'', ''accessibility'', ''seo'', ''best-practices'', ''pwa''})
         \<or> (\<exists>v. map_of kvs ''formFactor'' = Some v \<and> v \<notin> JString ` {''desktop'', ''mobile''})
         \<or> (\<exists>v. map_of kvs ''output'' = Some v \<and> v \<notin> JString ` {''html'', ''json''})"
  shows "\<exists>issues. issues \<noteq> []
           \<and> lighthouseAuditSchema_parse (JObject kvs) = Inl (ZodError issues)
           \<and> handle c e (JObject kvs) = ([], Inl (ZodError issues))
           \<and> engine_calls (fst (handle c e (JObject kvs))) = []"
proof -
  from assms consider
      (cat) xs x where "map_of kvs ''categories'' = Some (JArray xs)" "x \<in> set xs"
        "category_enum x = None"
    | (ff) v where "map_of kvs ''formFactor'' = Some v" "formFactor_enum v = None"
    | (out) v where "map_of kvs ''output'' = Some v" "output_enum v = None"
    unfolding category_enum_None formFactor_enum_None output_enum_None by blast
  then have "(\<exists>ps. parse_categories (map_of kvs ''categories'') = Inl ps)
         \<or> (\<exists>ps. parse_formFactor (map_of kvs ''formFactor'') = Inl ps)
         \<or> (\<exists>ps. parse_output (map_of kvs ''output'') = Inl ps)
         \<or> (\<exists>ps. parse_thresholds (map_of kvs ''thresholds'') = Inl ps)"
  proof cases
    case cat
    then have "array_values category_enum xs = None"
      unfolding array_values_None by blast
    with cat(1) show ?thesis by (simp add: parse_categories_def)
  next
    case ff
    then show ?thesis by (simp add: parse_formFactor_def)
  next
    case out
    then show ?thesis by (simp add: parse_output_def)
  qed
  then obtain issues where "issues \<noteq> []"
    and "lighthouseAuditSchema_parse (JObject kvs) = Inl (ZodError issues)"
    using parse_object_error by blast
  then show ?thesis by (auto simp add: handle_parse_error)
qed

theorem C4_enum_violation_fails_validation_witness:
  "(\<exists>issues. issues \<noteq> []
      \<and> handle False (example_env [''--remote-debugging-port=9222''])
            (JObject [(''categories'', JArray [JString ''seo'', JString ''speed''])])
          = ([], Inl (ZodError issues)))
   \<and> (\<exists>issues. issues \<noteq> []
      \<and> handle False (example_env [''--remote-debugging-port=9222''])
            (JObject [(''formFactor'', JString ''tablet'')])
          = ([], Inl (ZodError issues)))
   \<and> (\<exists>issues. issues \<noteq> []
      \<and> handle False (example_env [''--remote-debugging-port=9222''])
            (JObject [(''output'', JString ''pdf'')])
          = ([], Inl (ZodError issues)))"
proof -
  let ?e = "example_env [''--remote-debugging-port=9222'']"
  have "\<exists>xs x. map_of [(''categories'', JArray [JString ''seo'', JString ''speed''])] ''categories''
            = Some (JArray xs) \<and> x \<in> set xs
          \<and> x \<notin> JString ` {''performance'', ''accessibility'', ''seo'', ''best-practices'', ''pwa''}"
    by (intro exI [of _ "[JString ''seo'', JString ''speed'']"] exI [of _ "JString ''speed''"]) simp
  then have 1: "\<exists>issues. issues \<noteq> []
      \<and> handle False ?e (JObject [(''categories'', JArray [JString ''seo'', JString ''speed''])])
          = ([], Inl (ZodError issues))"
    using C4_enum_violation_fails_validation
      [of "[(''categories'', JArray [JString ''seo'', JString ''speed''])]" False ?e]
    by blast
  have "\<exists>v. map_of [(''formFactor'', JString ''tablet'')] ''formFactor'' = Some v
          \<and> v \<notin> JString ` {''desktop'', ''mobile''}"
    by (intro exI [of _ "JString ''tablet''"]) simp
  then have 2: "\<exists>issues. issues \<noteq> []
      \<and> handle False ?e (JObject [(''formFactor'', JString ''tablet'')]) = ([], Inl (ZodError issues))"
    using C4_enum_violation_fails_validation [of "[(''formFactor'', JString ''tablet'')]" False ?e]
    by blast
  have "\<exists>v. map_of [(''output'', JString ''pdf'')] ''output'' = Some v
          \<and> v \<notin> JString ` {''html'', ''json''}"
    by (intro exI [of _ "JString ''pdf''"]) simp
  then have 3: "\<exists>issues. issues \<noteq> []
      \<and> handle False ?e (JObject [(''output'', JString ''pdf'')]) = ([], Inl (ZodError issues))"
    using C4_enum_violation_fails_validation [of "[(''output'', JString ''pdf'')]" False ?e]
    by blast
  from 1 2 3 show ?thesis by (intro conjI)
qed

text \<open>
  \<^bold>\<open>C5\<close>, as amended. When no launch argument starts with
  \<open>--remote-debugging-port=\<close>, the handler fails and the audit engine is not invoked;
  when the parameters pass validation and the context gives a tab, the failure is the
  configuration error whose message tells the operator to restart with that flag.
\<close>

theorem C5_missing_flag_is_configuration_error:
  assumes "launchOptions e = Some lo" and "args lo = Some as"
    and "\<forall>a\<in>set as. \<not> startsWith a ''--remote-debugging-port=''"
  shows "engine_calls (fst (handle c e params)) = []
       \<and> (\<exists>err. snd (handle c e params) = Inl err)
       \<and> (\<forall>opts pg. lighthouseAuditSchema_parse params = Inr opts \<and> ensureTab e = Inr pg \<longrightarrow>
            handle c e params =
              ([EnsureTab],
               Inl (ConfigurationError
                 ''The Playwright browser was not launched with --remote-debugging-port=<n>. Restart the MCP server with that flag so Lighthouse can attach.'')))"
proof -
  have none: "find_port (launchOptions e) = None"
    using assms by (rule find_port_absent)
  then have "engine_calls (fst (handle c e params)) = [] \<and> (\<exists>err. snd (handle c e params) = Inl err)"
    by (intro no_port_no_engine) simp
  moreover have "handle c e params = ([EnsureTab], Inl (ConfigurationError port_error_message))"
    if "lighthouseAuditSchema_parse params = Inr opts" and "ensureTab e = Inr pg" for opts pg
    using that none by (intro handle_no_port) simp_all
  ultimately show ?thesis
    unfolding port_error_message_text by blast
qed

theorem C5_missing_flag_is_configuration_error_witness:
  "\<not> startsWith ''--headless'' ''--remote-debugging-port=''
   \<and> \<not> startsWith ''--no-sandbox'' ''--remote-debugging-port=''
   \<and> handle False (example_env [''--headless'', ''--no-sandbox'']) (JObject []) =
       ([EnsureTab],
        Inl (ConfigurationError
          ''The Playwright browser was not launched with --remote-debugging-port=<n>. Restart the MCP server with that flag so Lighthouse can attach.''))"
proof -
  let ?e = "example_env [''--headless'', ''--no-sandbox'']"
  have a: "launchOptions ?e = Some \<lparr>args = Some [''--headless'', ''--no-sandbox'']\<rparr>"
    by (simp add: example_env_def)
  have b: "args \<lparr>args = Some [''--headless'', ''--no-sandbox'']\<rparr> = Some [''--headless'', ''--no-sandbox'']"
    by simp
  have h: "\<forall>a\<in>set [''--headless'', ''--no-sandbox'']. \<not> startsWith a ''--remote-debugging-port=''"
    by (simp add: startsWith_def)
  have p: "lighthouseAuditSchema_parse (JObject []) =
      Inr \<lparr>categories = [Accessibility], formFactor = Desktop, output' = Html, thresholds = None\<rparr>"
    by (simp add: parse_defs)
  have t: "ensureTab ?e = Inr (Page 0)" by (simp add: example_env_def)
  have "\<not> startsWith ''--headless'' ''--remote-debugging-port=''"
    and "\<not> startsWith ''--no-sandbox'' ''--remote-debugging-port=''"
    by (simp_all add: startsWith_def)
  with C5_missing_flag_is_configuration_error [OF a b h, of False "JObject []"] p t
  show ?thesis by blast
qed

text \<open>
  As written, for every invocation without the flag, the statement fails: validation and
  \<open>ensureTab\<close> come first (lines 33 and 34), and what they throw is not the
  configuration error.
\<close>

theorem C5_counterexample:
  "\<not> startsWith ''--headless'' ''--remote-debugging-port=''
   \<and> handle False (example_env [''--headless'']) JNull = ([], Inl (ZodError [[]]))
   \<and> handle False ((example_env [''--headless''])\<lparr>ensureTab := Inl ''no tab''\<rparr>) (JObject [])
       = ([EnsureTab], Inl (TabError ''no tab''))"
proof -
  have "\<not> startsWith ''--headless'' ''--remote-debugging-port=''"
    by (simp add: startsWith_def)
  moreover have "lighthouseAuditSchema_parse JNull = Inl (ZodError [[]])"
    by (simp add: lighthouseAuditSchema_parse_def)
  then have "handle False (example_env [''--headless'']) JNull = ([], Inl (ZodError [[]]))"
    by (rule handle_parse_error)
  moreover have "ensureTab ((example_env [''--headless''])\<lparr>ensureTab := Inl ''no tab''\<rparr>)
                   = Inl ''no tab''"
    by simp
  then have "handle False ((example_env [''--headless''])\<lparr>ensureTab := Inl ''no tab''\<rparr>) (JObject [])
       = ([EnsureTab], Inl (TabError ''no tab''))"
    using parse_empty_object by (intro handle_tab_error)
  ultimately show ?thesis by (intro conjI)
qed

text \<open>
  \<^bold>\<open>C6\<close>, as amended. When \<open>--remote-debugging-port=9222\<close> is the first launch
  argument that starts with \<open>--remote-debugging-port=\<close>, the resolved port is the string
  \<open>9222\<close> whatever the other arguments are, and an invocation that gets as far as the
  engine (valid parameters, a tab, a report directory) calls it once, with the integer
  \<open>9222\<close> as port.
\<close>

theorem C6_first_flag_decides_port:
  assumes "launchOptions e = Some lo"
    and "args lo = Some (pre @ ''--remote-debugging-port=9222'' # post)"
    and "\<forall>a\<in>set pre. \<not> startsWith a ''--remote-debugging-port=''"
  shows "find_port (launchOptions e) = Some ''9222''
       \<and> (\<forall>opts pg u. lighthouseAuditSchema_parse params = Inr opts \<and> ensureTab e = Inr pg
              \<and> mkdir e (path_join [cwd e, ''lighthouse-reports'']) = Inr u \<longrightarrow>
            (\<exists>a. engine_calls (fst (handle c e params)) = [a] \<and> port a = Number 9222))"
proof -
  have "args lo = Some (pre @ (''--remote-debugging-port='' @ ''9222'') # post)"
    using assms(2) by simp
  with assms(1) have "find_port (launchOptions e) = Some (hd (split CHR ''='' ''9222''))"
    using assms(3) by (rule find_port_first)
  then have port: "find_port (launchOptions e) = Some ''9222''" by simp
  have "\<exists>a. engine_calls (fst (handle c e params)) = [a] \<and> port a = Number 9222"
    if "lighthouseAuditSchema_parse params = Inr opts" and "ensureTab e = Inr pg"
      and "mkdir e (path_join [cwd e, ''lighthouse-reports'']) = Inr u" for opts pg u
    using handle_engine_call [OF that(1,2) port _ that(3), of c]
    by (simp add: parseInt10_9222)
  with port show ?thesis by blast
qed

theorem C6_first_flag_decides_port_witness:
  "\<not> startsWith ''--headless'' ''--remote-debugging-port=''
   \<and> find_port (launchOptions (example_env
         [''--headless'', ''--remote-debugging-port=9222'', ''--remote-debugging-port=1111'']))
       = Some ''9222''
   \<and> map port (engine_calls (fst (handle False (example_env
         [''--headless'', ''--remote-debugging-port=9222'', ''--remote-debugging-port=1111''])
         (JObject [])))) = [Number 9222]"
proof -
  let ?as = "[''--headless'', ''--remote-debugging-port=9222'', ''--remote-debugging-port=1111'']"
  let ?e = "example_env ?as"
  have a: "launchOptions ?e = Some \<lparr>args = Some ?as\<rparr>"
    by (simp add: example_env_def)
  have b: "args \<lparr>args = Some ?as\<rparr> =
      Some ([''--headless''] @ ''--remote-debugging-port=9222'' # [''--remote-debugging-port=1111''])"
    by simp
  have n: "\<not> startsWith ''--headless'' ''--remote-debugging-port=''"
    by (simp add: startsWith_def)
  then have h: "\<forall>a\<in>set [''--headless'']. \<not> startsWith a ''--remote-debugging-port=''"
    by simp
  have p: "lighthouseAuditSchema_parse (JObject []) =
      Inr \<lparr>categories = [Accessibility], formFactor = Desktop, output' = Html, thresholds = None\<rparr>"
    by (simp add: parse_defs)
  have t: "ensureTab ?e = Inr (Page 0)" by (simp add: example_env_def)
  have m: "mkdir ?e (path_join [cwd ?e, ''lighthouse-reports'']) = Inr ()"
    by (simp add: example_env_def)
  from C6_first_flag_decides_port [OF a b h, of "JObject []" False] p t m
  have "find_port (launchOptions ?e) = Some ''9222''"
    and "\<exists>a. engine_calls (fst (handle False ?e (JObject []))) = [a] \<and> port a = Number 9222"
    by blast+
  with n show ?thesis by auto
qed

text \<open>
  As written, for any sequence that contains the argument, the statement fails: an
  earlier argument with the same flag and another value decides the port.
\<close>

theorem C6_counterexample:
  "''--remote-debugging-port=9222''
     \<in> set [''--remote-debugging-port=1111'', ''--remote-debugging-port=9222'']
   \<and> map port (engine_calls (fst (handle False
         (example_env [''--remote-debugging-port=1111'', ''--remote-debugging-port=9222''])
         (JObject [])))) = [Number 1111]"
proof -
  let ?as = "[''--remote-debugging-port=1111'', ''--remote-debugging-port=9222'']"
  let ?e = "example_env ?as"
  have p: "lighthouseAuditSchema_parse (JObject []) =
      Inr \<lparr>categories = [Accessibility], formFactor = Desktop, output' = Html, thresholds = None\<rparr>"
    by (simp add: parse_defs)
  have t: "ensureTab ?e = Inr (Page 0)" by (simp add: example_env_def)
  have m: "mkdir ?e (path_join [cwd ?e, ''lighthouse-reports'']) = Inr ()"
    by (simp add: example_env_def)
  have f: "find_port (launchOptions ?e) = Some ''1111''"
    by (simp add: example_env_def find_port_def startsWith_def at_index_def)
  have "parseInt10 ''1111'' = Number 1111"
    by (simp add: parseInt10_def isWhiteSpace_def isDigit_def digits_value_def)
  then show ?thesis
    using handle_engine_call [OF p t f _ m, of False] by simp
qed

text \<open>
  \<^bold>\<open>C7.\<close> The response of a successful invocation lists exactly one file. With
  \<open>output = html\<close> its media type is \<open>text/html\<close> and its path is
  \<open>lighthouse-<epoch-ms>.html\<close> joined to \<open>lighthouse-reports\<close> joined to the working
  directory; with \<open>output = json\<close> the media type is \<open>application/json\<close> and the path
  is the same with the extension \<open>.json\<close>. For a working directory as \<open>process.cwd()\<close>
  answers it (absolute and normalised) the path reads
  \<open><cwd>/lighthouse-reports/lighthouse-<epoch-ms>.<ext>\<close>, the root directory
  contributing no second slash.
\<close>

theorem C7_one_report_file:
  assumes "handle c e params = (tr, Inr resp)"
    and "lighthouseAuditSchema_parse params = Inr opts"
  shows "(output' opts = Html \<longrightarrow>
            files resp =
              [\<lparr>path = path_join [path_join [cwd e, ''lighthouse-reports''],
                                  ''lighthouse-'' @ Number_toString (Date_now e) @ ''.html''],
                mediaType = ''text/html''\<rparr>])
       \<and> (output' opts = Json \<longrightarrow>
            files resp =
              [\<lparr>path = path_join [path_join [cwd e, ''lighthouse-reports''],
                                  ''lighthouse-'' @ Number_toString (Date_now e) @ ''.json''],
                mediaType = ''application/json''\<rparr>])
       \<and> (\<forall>segs. cwd e = absolute_path segs \<and> list_all plain_segment segs \<longrightarrow>
            files resp =
              [\<lparr>path = (if cwd e = ''/'' then [] else cwd e) @ ''/lighthouse-reports/lighthouse-''
                        @ Number_toString (Date_now e)
                        @ (case output' opts of Html \<Rightarrow> ''.html'' | Json \<Rightarrow> ''.json''),
                mediaType = (case output' opts of Html \<Rightarrow> ''text/html''
                             | Json \<Rightarrow> ''application/json'')\<rparr>])"
proof -
  from assms have files: "files resp =
      generatedFiles \<lparr>html = (output' opts = Html), json = (output' opts = Json)\<rparr>
        (path_join [cwd e, ''lighthouse-reports'']) (reportFileBase (Date_now e))"
    using handle_success [OF assms(1)] by auto
  have joined: "files resp =
      [\<lparr>path = path_join [path_join [cwd e, ''lighthouse-reports''],
                          reportFileBase (Date_now e)
                          @ (case output' opts of Html \<Rightarrow> ''.html'' | Json \<Rightarrow> ''.json'')],
        mediaType = (case output' opts of Html \<Rightarrow> ''text/html'' | Json \<Rightarrow> ''application/json'')\<rparr>]"
    using files by (cases "output' opts") (simp_all add: generatedFiles_def)
  have literal: "files resp =
      [\<lparr>path = (if cwd e = ''/'' then [] else cwd e) @ ''/lighthouse-reports/lighthouse-''
                @ Number_toString (Date_now e)
                @ (case output' opts of Html \<Rightarrow> ''.html'' | Json \<Rightarrow> ''.json''),
        mediaType = (case output' opts of Html \<Rightarrow> ''text/html'' | Json \<Rightarrow> ''application/json'')\<rparr>]"
    if cwd: "cwd e = absolute_path segs" and plain: "list_all plain_segment segs" for segs
  proof -
    define ext where "ext = (case output' opts of Html \<Rightarrow> ''.html'' | Json \<Rightarrow> ''.json'')"
    have "ext = ''.html'' \<or> ext = ''.json''"
      by (cases "output' opts") (simp_all add: ext_def)
    with plain have "path_join [path_join [absolute_path segs, ''lighthouse-reports''],
                       reportFileBase (Date_now e) @ ext] =
         (if segs = [] then [] else absolute_path segs)
           @ ''/lighthouse-reports/'' @ reportFileBase (Date_now e) @ ext"
      by (rule report_file_path)
    moreover have "segs = [] \<longleftrightarrow> cwd e = ''/''"
      using absolute_path_root [OF plain] cwd by simp
    ultimately have "path_join [path_join [cwd e, ''lighthouse-reports''],
                       reportFileBase (Date_now e) @ ext] =
         (if cwd e = ''/'' then [] else cwd e)
           @ ''/lighthouse-reports/lighthouse-'' @ Number_toString (Date_now e) @ ext"
      using cwd by (simp add: reportFileBase_def)
    with joined show ?thesis by (simp add: ext_def)
  qed
  from joined literal show ?thesis
    by (cases "output' opts") (simp_all add: reportFileBase_def)
qed

theorem C7_one_report_file_witness:
  "(\<exists>tr resp. handle False (example_env [''--remote-debugging-port=9222'']) (JObject [])
                 = (tr, Inr resp)
      \<and> files resp =
          [\<lparr>path = ''/srv/app/lighthouse-reports/lighthouse-1700000000000.html'',
            mediaType = ''text/html''\<rparr>])
   \<and> (\<exists>tr resp. handle False (example_env [''--remote-debugging-port=9222''])
                   (JObject [(''output'', JString ''json'')])
                 = (tr, Inr resp)
      \<and> files resp =
          [\<lparr>path = ''/srv/app/lighthouse-reports/lighthouse-1700000000000.json'',
            mediaType = ''application/json''\<rparr>])"
proof -
  let ?e = "example_env [''--remote-debugging-port=9222'']"
  have cwd: "cwd ?e = ''/srv/app''" by (simp add: example_env_def)
  obtain tr resp where run: "handle False ?e (JObject []) = (tr, Inr resp)"
    using example_env_returns [OF parse_empty_object] by blast
  have "cwd ?e = absolute_path [''srv'', ''app''] \<and> list_all plain_segment [''srv'', ''app''] \<longrightarrow>
          files resp =
            [\<lparr>path = (if cwd ?e = ''/'' then [] else cwd ?e) @ ''/lighthouse-reports/lighthouse-''
                      @ Number_toString (Date_now ?e)
                      @ (case output' \<lparr>categories = [Accessibility], formFactor = Desktop, output' = Html, thresholds = None\<rparr> of Html \<Rightarrow> ''.html'' | Json \<Rightarrow> ''.json''),
              mediaType = (case output' \<lparr>categories = [Accessibility], formFactor = Desktop, output' = Html, thresholds = None\<rparr> of Html \<Rightarrow> ''text/html''
                           | Json \<Rightarrow> ''application/json'')\<rparr>]"
    using C7_one_report_file [OF run parse_empty_object] by blast
  then have "files resp =
            [\<lparr>path = (if cwd ?e = ''/'' then [] else cwd ?e) @ ''/lighthouse-reports/lighthouse-''
                      @ Number_toString (Date_now ?e)
                      @ (case output' \<lparr>categories = [Accessibility], formFactor = Desktop, output' = Html, thresholds = None\<rparr> of Html \<Rightarrow> ''.html'' | Json \<Rightarrow> ''.json''),
              mediaType = (case output' \<lparr>categories = [Accessibility], formFactor = Desktop, output' = Html, thresholds = None\<rparr> of Html \<Rightarrow> ''text/html''
                           | Json \<Rightarrow> ''application/json'')\<rparr>]"
    using example_env_cwd by blast
  then have "files resp =
          [\<lparr>path = ''/srv/app/lighthouse-reports/lighthouse-1700000000000.html'',
            mediaType = ''text/html''\<rparr>]"
    by (simp add: example_env_clock cwd)
  with run have html: "\<exists>tr resp. handle False ?e (JObject []) = (tr, Inr resp)
      \<and> files resp =
          [\<lparr>path = ''/srv/app/lighthouse-reports/lighthouse-1700000000000.html'',
            mediaType = ''text/html''\<rparr>]"
    by blast
  obtain tr' resp' where run':
    "handle False ?e (JObject [(''output'', JString ''json'')]) = (tr', Inr resp')"
    using example_env_returns [OF parse_json_output] by blast
  have "cwd ?e = absolute_path [''srv'', ''app''] \<and> list_all plain_segment [''srv'', ''app''] \<longrightarrow>
          files resp' =
            [\<lparr>path = (if cwd ?e = ''/'' then [] else cwd ?e) @ ''/lighthouse-reports/lighthouse-''
                      @ Number_toString (Date_now ?e)
                      @ (case output' \<lparr>categories = [Accessibility], formFactor = Desktop, output' = Json, thresholds = None\<rparr> of Html \<Rightarrow> ''.html'' | Json \<Rightarrow> ''.json''),
              mediaType = (case output' \<lparr>categories = [Accessibility], formFactor = Desktop, output' = Json, thresholds = None\<rparr> of Html \<Rightarrow> ''text/html''
                           | Json \<Rightarrow> ''application/json'')\<rparr>]"
    using C7_one_report_file [OF run' parse_json_output] by blast
  then have "files resp' =
            [\<lparr>path = (if cwd ?e = ''/'' then [] else cwd ?e) @ ''/lighthouse-reports/lighthouse-''
                      @ Number_toString (Date_now ?e)
                      @ (case output' \<lparr>categories = [Accessibility], formFactor = Desktop, output' = Json, thresholds = None\<rparr> of Html \<Rightarrow> ''.html'' | Json \<Rightarrow> ''.json''),
              mediaType = (case output' \<lparr>categories = [Accessibility], formFactor = Desktop, output' = Json, thresholds = None\<rparr> of Html \<Rightarrow> ''text/html''
                           | Json \<Rightarrow> ''application/json'')\<rparr>]"
    using example_env_cwd by blast
  then have "files resp' =
          [\<lparr>path = ''/srv/app/lighthouse-reports/lighthouse-1700000000000.json'',
            mediaType = ''application/json''\<rparr>]"
    by (simp add: example_env_clock cwd)
  with run' have "\<exists>tr resp. handle False ?e (JObject [(''output'', JString ''json'')]) = (tr, Inr resp)
      \<and> files resp =
          [\<lparr>path = ''/srv/app/lighthouse-reports/lighthouse-1700000000000.json'',
            mediaType = ''application/json''\<rparr>]"
    by blast
  with html show ?thesis by (intro conjI)
qed

text \<open>
  \<^bold>\<open>C8.\<close> A successful invocation has called the engine once and got a result; the
  keys of \<open>data.scores\<close> are the keys of the result's \<open>categories\<close>, and (an object
  having each key once) \<open>data.scores\<close> holds under each key the \<open>score\<close> of that
  category, as the engine gave it, in the same order.
\<close>

theorem C8_scores_pass_through:
  assumes "handle c e params = (tr, Inr resp)"
  shows "\<exists>a r. engine_calls tr = [a] \<and> playAudit e a = Inr r
           \<and> fst ` set (data_scores resp) = fst ` set (lhr_categories r)
           \<and> (distinct (map fst (lhr_categories r)) \<longrightarrow>
                data_scores resp = map (\<lambda>(k, v). (k, score v)) (lhr_categories r)
                \<and> (\<forall>k. map_of (data_scores resp) k = map_option score (map_of (lhr_categories r) k)))"
proof -
  from handle_success [OF assms] obtain a r where
    tr: "tr = [EnsureTab, Mkdir (path_join [cwd e, ''lighthouse-reports'']), PlayAudit a, ConsoleLog r]"
    and r: "playAudit e a = Inr r"
    and scores: "data_scores resp =
                   Object_fromEntries (map (\<lambda>(k, v). (k, score v)) (lhr_categories r))"
    by blast
  have calls: "engine_calls tr = [a]" by (simp add: tr)
  have "fst ` set (data_scores resp) = set (map fst (map (\<lambda>(k, v). (k, score v)) (lhr_categories r)))"
    by (simp only: scores Object_fromEntries_keys set_map)
  then have keys: "fst ` set (data_scores resp) = fst ` set (lhr_categories r)"
    by (simp only: score_entries_keys set_map)
  have "data_scores resp = map (\<lambda>(k, v). (k, score v)) (lhr_categories r)
        \<and> (\<forall>k. map_of (data_scores resp) k = map_option score (map_of (lhr_categories r) k))"
    if "distinct (map fst (lhr_categories r))"
  proof -
    from that have "distinct (map fst (map (\<lambda>(k, v). (k, score v)) (lhr_categories r)))"
      by (simp only: score_entries_keys)
    then have "data_scores resp = map (\<lambda>(k, v). (k, score v)) (lhr_categories r)"
      unfolding scores by (rule Object_fromEntries_distinct)
    then show ?thesis by (simp add: map_of_score_entries)
  qed
  with calls r keys show ?thesis by blast
qed

theorem C8_scores_pass_through_witness:
  "\<exists>tr resp. handle False (example_env [''--remote-debugging-port=9222'']) (JObject [])
                = (tr, Inr resp)
     \<and> data_scores resp = [(''accessibility'', 0.93), (''seo'', 1)]"
proof -
  let ?e = "example_env [''--remote-debugging-port=9222'']"
  obtain tr resp where run: "handle False ?e (JObject []) = (tr, Inr resp)"
    using example_env_returns [OF parse_empty_object] by blast
  from C8_scores_pass_through [OF run] obtain a r where
    r: "playAudit ?e a = Inr r"
    and d: "distinct (map fst (lhr_categories r)) \<longrightarrow>
              data_scores resp = map (\<lambda>(k, v). (k, score v)) (lhr_categories r)"
    by blast
  from r have "r = \<lparr>lhr_categories = [(''accessibility'', \<lparr>score = 0.93\<rparr>), (''seo'', \<lparr>score = 1\<rparr>)]\<rparr>"
    by (simp add: example_env_def)
  with d have "data_scores resp = [(''accessibility'', 0.93), (''seo'', 1)]"
    by simp
  with run show ?thesis by blast
qed

text \<open>
  \<^bold>\<open>C9.\<close> When the flag is present with nothing after its \<open>=\<close>, and no other launch
  argument starts with \<open>--remote-debugging-port=\<close>, the handler behaves exactly as it does
  on the same arguments with the flag removed: the audit engine is not invoked, and once
  the parameters have passed validation and the context has given a tab, the handler throws
  the configuration error of the absent flag.
\<close>

theorem C9_empty_flag_value_is_configuration_error:
  assumes "launchOptions e = Some lo" and "args lo = Some as"
    and "''--remote-debugging-port='' \<in> set as"
    and "\<forall>a\<in>set as. startsWith a ''--remote-debugging-port='' \<longrightarrow> a = ''--remote-debugging-port=''"
  shows "engine_calls (fst (handle c e params)) = []
       \<and> handle c e params =
           handle c (e\<lparr>launchOptions :=
                        Some \<lparr>args = Some (filter (\<lambda>a. \<not> startsWith a ''--remote-debugging-port='') as)\<rparr>\<rparr>)
                  params
       \<and> (\<forall>opts pg. lighthouseAuditSchema_parse params = Inr opts \<and> ensureTab e = Inr pg \<longrightarrow>
            handle c e params =
              ([EnsureTab],
               Inl (ConfigurationError
                 ''The Playwright browser was not launched with --remote-debugging-port=<n>. Restart the MCP server with that flag so Lighthouse can attach.'')))"
proof -
  let ?absent = "Some \<lparr>args = Some (filter (\<lambda>a. \<not> startsWith a ''--remote-debugging-port='') as)\<rparr>"
  have empty: "find_port (launchOptions e) = Some []"
    using assms(1,2,4,3) by (rule find_port_empty_value)
  have absent: "find_port ?absent = None"
    by (simp add: find_port_def find_first_None)
  have "engine_calls (fst (handle c e params)) = []"
    using empty no_port_no_engine [of e c params] by simp
  moreover have "handle c e params = handle c (e\<lparr>launchOptions := ?absent\<rparr>) params"
    using empty absent by (intro handle_launchOptions_irrelevant) simp_all
  moreover have "handle c e params = ([EnsureTab], Inl (ConfigurationError port_error_message))"
    if "lighthouseAuditSchema_parse params = Inr opts" and "ensureTab e = Inr pg" for opts pg
    using that empty by (intro handle_no_port) simp_all
  ultimately show ?thesis
    unfolding port_error_message_text by blast
qed

theorem C9_empty_flag_value_is_configuration_error_witness:
  "''--remote-debugging-port='' \<in> set [''--headless'', ''--remote-debugging-port='']
   \<and> \<not> startsWith ''--headless'' ''--remote-debugging-port=''
   \<and> engine_calls (fst (handle False (example_env [''--headless'', ''--remote-debugging-port=''])
                         (JObject []))) = []
   \<and> handle False (example_env [''--headless'', ''--remote-debugging-port='']) (JObject []) =
       ([EnsureTab],
        Inl (ConfigurationError
          ''The Playwright browser was not launched with --remote-debugging-port=<n>. Restart the MCP server with that flag so Lighthouse can attach.''))"
proof -
  let ?as = "[''--headless'', ''--remote-debugging-port='']"
  let ?e = "example_env ?as"
  have a: "launchOptions ?e = Some \<lparr>args = Some ?as\<rparr>"
    by (simp add: example_env_def)
  have b: "args \<lparr>args = Some ?as\<rparr> = Some ?as"
    by simp
  have m: "''--remote-debugging-port='' \<in> set ?as" by simp
  have h: "\<forall>a\<in>set ?as. startsWith a ''--remote-debugging-port='' \<longrightarrow> a = ''--remote-debugging-port=''"
    by (simp add: startsWith_def)
  have p: "lighthouseAuditSchema_parse (JObject []) =
      Inr \<lparr>categories = [Accessibility], formFactor = Desktop, output' = Html, thresholds = None\<rparr>"
    by (simp add: parse_defs)
  have t: "ensureTab ?e = Inr (Page 0)" by (simp add: example_env_def)
  have "\<not> startsWith ''--headless'' ''--remote-debugging-port=''"
    by (simp add: startsWith_def)
  with C9_empty_flag_value_is_configuration_error [OF a b m h, of False "JObject []"] p t m
  show ?thesis by blast
qed

text \<open>
  \<^bold>\<open>C10.\<close> There are launch arguments with a non-empty, non-numeric value after the
  flag for which the handler does not throw the configuration error and calls the engine
  with the port \<open>NaN\<close>. It is so whenever the value of the first argument that starts with
  \<open>--remote-debugging-port=\<close> begins with a character that is neither a digit, nor a sign,
  nor white space, nor \<open>=\<close>, and the invocation gets as far as the engine.
\<close>

theorem C10_non_numeric_port_reaches_engine:
  assumes "launchOptions e = Some lo"
    and "args lo = Some (pre @ (''--remote-debugging-port='' @ ch # rest) # post)"
    and "\<forall>a\<in>set pre. \<not> startsWith a ''--remote-debugging-port=''"
    and "\<not> isDigit ch" and "\<not> isWhiteSpace ch"
    and "ch \<noteq> CHR ''-''" and "ch \<noteq> CHR ''+''" and "ch \<noteq> CHR ''=''"
    and "lighthouseAuditSchema_parse params = Inr opts" and "ensureTab e = Inr pg"
    and "mkdir e (path_join [cwd e, ''lighthouse-reports'']) = Inr u"
  shows "(\<exists>a. engine_calls (fst (handle c e params)) = [a] \<and> port a = NaN)
       \<and> (\<forall>m. snd (handle c e params) \<noteq> Inl (ConfigurationError m))"
proof -
  define p where "p = ch # takeWhile (\<lambda>c. c \<noteq> CHR ''='') rest"
  have "find_port (launchOptions e) = Some (hd (split CHR ''='' (ch # rest)))"
    using assms(1,2,3) by (rule find_port_first)
  then have port: "find_port (launchOptions e) = Some p"
    using assms(8) by (simp only: hd_split p_def) simp
  have ne: "p \<noteq> []" by (simp add: p_def)
  have nan: "parseInt10 p = NaN"
    unfolding p_def using assms(5,4,6,7) by (rule parseInt10_NaN)
  have "\<exists>a. engine_calls (fst (handle c e params)) = [a] \<and> port a = NaN"
    using handle_engine_call [OF assms(9,10) port ne assms(11), of c] nan by simp
  moreover have "\<forall>m. snd (handle c e params) \<noteq> Inl (ConfigurationError m)"
    using handle_outcome [OF assms(9,10) port ne assms(11), of c] by auto
  ultimately show ?thesis by blast
qed

theorem C10_non_numeric_port_reaches_engine_witness:
  "map port (engine_calls (fst (handle False
       (example_env [''--headless'', ''--remote-debugging-port=abc'']) (JObject [])))) = [NaN]
   \<and> snd (handle False (example_env [''--headless'', ''--remote-debugging-port=abc''])
            (JObject []))
       \<noteq> Inl (ConfigurationError port_error_message)"
proof -
  let ?as = "[''--headless'', ''--remote-debugging-port=abc'']"
  let ?e = "example_env ?as"
  have a: "launchOptions ?e = Some \<lparr>args = Some ?as\<rparr>"
    by (simp add: example_env_def)
  have b: "args \<lparr>args = Some ?as\<rparr> =
      Some ([''--headless''] @ (''--remote-debugging-port='' @ CHR ''a'' # ''bc'') # [])"
    by simp
  have h: "\<forall>a\<in>set [''--headless'']. \<not> startsWith a ''--remote-debugging-port=''"
    by (simp add: startsWith_def)
  have d: "\<not> isDigit CHR ''a''" by (simp add: isDigit_def)
  have w: "\<not> isWhiteSpace CHR ''a''" by (simp add: isWhiteSpace_def)
  have p: "lighthouseAuditSchema_parse (JObject []) =
      Inr \<lparr>categories = [Accessibility], formFactor = Desktop, output' = Html, thresholds = None\<rparr>"
    by (simp add: parse_defs)
  have t: "ensureTab ?e = Inr (Page 0)" by (simp add: example_env_def)
  have m: "mkdir ?e (path_join [cwd ?e, ''lighthouse-reports'']) = Inr ()"
    by (simp add: example_env_def)
  from C10_non_numeric_port_reaches_engine [OF a b h d w _ _ _ p t m, of False]
  have "\<exists>a. engine_calls (fst (handle False ?e (JObject []))) = [a] \<and> port a = NaN"
    and "\<forall>m. snd (handle False ?e (JObject [])) \<noteq> Inl (ConfigurationError m)"
    by simp_all
  then show ?thesis by auto
qed

end
